theory Spec2Isabelle
  imports
    Complex_Main
    "HOL-Library.Char_ord"
    "HOL-Library.List_Lexorder"
    "HOL-Library.Product_Lexorder"
    "HOL-Library.Sublist"
begin

section \<open>The malicious-UE detector xApp (malicious\_detector\_ml.py)\<close>

text \<open>
  A shallow embedding of \<^verbatim>\<open>KpmStyle5Xapp\<close>: the ingestion buffer of
  \<^verbatim>\<open>subscription_callback\<close>, the feature engineering of
  \<^verbatim>\<open>_feature_engineer_network_data\<close> and the two-stage cascade with its
  per-UE aggregation of \<^verbatim>\<open>predict_cascaded\<close>.  Python exceptions are values
  of \<open>error\<close>; a function that can raise returns \<open>error + 'a\<close>.
\<close>

subsection \<open>Exceptions\<close>

datatype error = KeyError | IndexError | AttributeError | TypeError

fun mapE :: "('a \<Rightarrow> error + 'b) \<Rightarrow> 'a list \<Rightarrow> error + 'b list" where
  "mapE f [] = Inr []"
| "mapE f (x # xs) =
     (case f x of
        Inl e \<Rightarrow> Inl e
      | Inr y \<Rightarrow> (case mapE f xs of Inl e \<Rightarrow> Inl e | Inr ys \<Rightarrow> Inr (y # ys)))"

subsection \<open>Strings and counting\<close>

text \<open>\<^verbatim>\<open>s.split("-", 1)\<close>: cut at the first dash, if there is one.\<close>

definition split_dash1 :: "string \<Rightarrow> string list" where
  "split_dash1 s =
     (case dropWhile (\<lambda>c. c \<noteq> CHR ''-'') s of
        [] \<Rightarrow> [s]
      | _ # rest \<Rightarrow> [takeWhile (\<lambda>c. c \<noteq> CHR ''-'') s, rest])"

text \<open>\<^verbatim>\<open>xs[1]\<close> on the list a split returns.\<close>

fun index1 :: "'a list \<Rightarrow> error + 'a" where
  "index1 (_ # y # _) = Inr y"
| "index1 _ = Inl IndexError"

text \<open>
  \<^verbatim>\<open>collections.Counter(xs)\<close>: a dictionary in insertion order, one entry for each
  distinct element, counting its occurrences.
\<close>

fun bump :: "'a \<Rightarrow> ('a \<times> nat) list \<Rightarrow> ('a \<times> nat) list" where
  "bump x [] = [(x, 1)]"
| "bump x ((k, c) # kcs) = (if k = x then (k, Suc c) # kcs else (k, c) # bump x kcs)"

definition Counter :: "'a list \<Rightarrow> ('a \<times> nat) list" where
  "Counter xs = foldl (\<lambda>acc x. bump x acc) [] xs"

text \<open>
  \<^verbatim>\<open>most_common(1)\<close> is \<^verbatim>\<open>heapq.nlargest(1, items, key=count)\<close>, which is
  \<^verbatim>\<open>max(items, key=count)\<close>: the first entry, in insertion order, with the largest count.
  \<^verbatim>\<open>[0][0]\<close> then takes its key, and raises on an empty counter.
\<close>

definition max_by_count :: "('a \<times> nat) \<Rightarrow> ('a \<times> nat) list \<Rightarrow> ('a \<times> nat)" where
  "max_by_count kc rest = foldl (\<lambda>best e. if snd best < snd e then e else best) kc rest"

definition most_common1 :: "('a \<times> nat) list \<Rightarrow> ('a \<times> nat) list" where
  "most_common1 items = (case items of [] \<Rightarrow> [] | kc # rest \<Rightarrow> [max_by_count kc rest])"

definition most_common_key :: "'a list \<Rightarrow> error + 'a" where
  "most_common_key xs =
     (case most_common1 (Counter xs) of [] \<Rightarrow> Inl IndexError | kc # _ \<Rightarrow> Inr (fst kc))"

text \<open>\<^verbatim>\<open>np.unique\<close>: the distinct values, ascending.\<close>

definition np_unique :: "int list \<Rightarrow> int list" where
  "np_unique xs = sort (remdups xs)"

subsection \<open>Per-UE aggregation (predict\_cascaded, lines 276--292)\<close>

text \<open>
  The verdict of one UE from the cascade predictions of its rows: the most common
  subtype among the rows labelled \<^verbatim>\<open>Malicious-\<close> when there is one, else the most
  common subtype among the rows labelled \<^verbatim>\<open>Benign-\<close>, else \<^verbatim>\<open>Unknown-NA\<close>.
\<close>

definition subtype_of :: "string \<Rightarrow> error + string" where
  "subtype_of p = index1 (split_dash1 p)"

definition ue_status :: "string list \<Rightarrow> error + string" where
  "ue_status ue_preds =
     (let malicious_preds = filter (prefix ''Malicious-'') ue_preds in
      if malicious_preds \<noteq> [] then
        (case mapE subtype_of malicious_preds of
           Inl e \<Rightarrow> Inl e
         | Inr subtypes \<Rightarrow>
             (case most_common_key subtypes of
                Inl e \<Rightarrow> Inl e
              | Inr chosen \<Rightarrow> Inr (''Malicious-'' @ chosen)))
      else
        (let benign_preds = filter (prefix ''Benign-'') ue_preds in
         if benign_preds \<noteq> [] then
           (case mapE subtype_of benign_preds of
              Inl e \<Rightarrow> Inl e
            | Inr subtypes \<Rightarrow>
                (case most_common_key subtypes of
                   Inl e \<Rightarrow> Inl e
                 | Inr chosen \<Rightarrow> Inr (''Benign-'' @ chosen)))
         else Inr ''Unknown-NA''))"

text \<open>
  The loop over \<^verbatim>\<open>np.unique(ue_ids)\<close>: \<open>rows\<close> pairs the \<^verbatim>\<open>UE_ID\<close> of each row
  with its \<^verbatim>\<open>cascade_prediction\<close>; the result is \<^verbatim>\<open>per_ue_status\<close>, in the
  order its keys are inserted.
\<close>

definition ue_preds_of :: "(int \<times> string) list \<Rightarrow> int \<Rightarrow> string list" where
  "ue_preds_of rows ue = map snd (filter (\<lambda>r. fst r = ue) rows)"

definition aggregate :: "(int \<times> string) list \<Rightarrow> error + (int \<times> string) list" where
  "aggregate rows =
     mapE (\<lambda>ue. case ue_status (ue_preds_of rows ue) of
                   Inl e \<Rightarrow> Inl e
                 | Inr status \<Rightarrow> Inr (ue, status))
          (np_unique (map fst rows))"

text \<open>\<^verbatim>\<open>counts.get(x, 0)\<close> on a counter.\<close>

definition cnt :: "('a \<times> nat) list \<Rightarrow> 'a \<Rightarrow> nat" where
  "cnt acc x = (case map_of acc x of None \<Rightarrow> 0 | Some c \<Rightarrow> c)"


subsection \<open>Floating-point values\<close>

text \<open>
  A \<^verbatim>\<open>float64\<close> is a finite value, an infinity or NaN.  The finite values are kept
  exact: rounding to 53 bits is not modelled, so a finite result stands for the double it
  rounds to.  What is modelled is what decides whether a result is finite: an operation
  on finite operands overflows to an infinity when the magnitude of its exact result
  reaches \<open>2^1024 - 2^970\<close> (the bound of IEEE 754 round-to-nearest), a division by
  zero gives an infinity or NaN, and NaN and the infinities propagate as IEEE 754 says.
  Signed zeros are not distinguished.
\<close>

datatype f64 = Fin real | PInf | NInf | NaN

definition f64_overflow :: real where
  "f64_overflow = 2 ^ 1024 - 2 ^ 970"

definition mk :: "real \<Rightarrow> f64" where
  "mk x = (if f64_overflow \<le> x then PInf else if x \<le> - f64_overflow then NInf else Fin x)"

fun is_finite :: "f64 \<Rightarrow> bool" where
  "is_finite (Fin _) = True"
| "is_finite _ = False"

fun fneg :: "f64 \<Rightarrow> f64" where
  "fneg (Fin a) = Fin (- a)"
| "fneg PInf = NInf"
| "fneg NInf = PInf"
| "fneg NaN = NaN"

fun fadd :: "f64 \<Rightarrow> f64 \<Rightarrow> f64" where
  "fadd (Fin a) (Fin b) = mk (a + b)"
| "fadd NaN _ = NaN"
| "fadd _ NaN = NaN"
| "fadd PInf NInf = NaN"
| "fadd NInf PInf = NaN"
| "fadd PInf _ = PInf"
| "fadd _ PInf = PInf"
| "fadd NInf _ = NInf"
| "fadd _ NInf = NInf"

definition fsub :: "f64 \<Rightarrow> f64 \<Rightarrow> f64" where
  "fsub a b = fadd a (fneg b)"

fun fmul :: "f64 \<Rightarrow> f64 \<Rightarrow> f64" where
  "fmul (Fin a) (Fin b) = mk (a * b)"
| "fmul NaN _ = NaN"
| "fmul _ NaN = NaN"
| "fmul (Fin a) PInf = (if a = 0 then NaN else if 0 < a then PInf else NInf)"
| "fmul (Fin a) NInf = (if a = 0 then NaN else if 0 < a then NInf else PInf)"
| "fmul PInf (Fin b) = (if b = 0 then NaN else if 0 < b then PInf else NInf)"
| "fmul NInf (Fin b) = (if b = 0 then NaN else if 0 < b then NInf else PInf)"
| "fmul PInf PInf = PInf"
| "fmul NInf NInf = PInf"
| "fmul PInf NInf = NInf"
| "fmul NInf PInf = NInf"

fun fdiv :: "f64 \<Rightarrow> f64 \<Rightarrow> f64" where
  "fdiv (Fin a) (Fin b) =
     (if b = 0 then (if a = 0 then NaN else if 0 < a then PInf else NInf) else mk (a / b))"
| "fdiv NaN _ = NaN"
| "fdiv _ NaN = NaN"
| "fdiv (Fin a) PInf = Fin 0"
| "fdiv (Fin a) NInf = Fin 0"
| "fdiv PInf (Fin b) = (if 0 \<le> b then PInf else NInf)"
| "fdiv NInf (Fin b) = (if 0 \<le> b then NInf else PInf)"
| "fdiv PInf PInf = NaN"
| "fdiv PInf NInf = NaN"
| "fdiv NInf PInf = NaN"
| "fdiv NInf NInf = NaN"

fun fabs :: "f64 \<Rightarrow> f64" where
  "fabs (Fin a) = Fin \<bar>a\<bar>"
| "fabs PInf = PInf"
| "fabs NInf = PInf"
| "fabs NaN = NaN"

fun fsqrt :: "f64 \<Rightarrow> f64" where
  "fsqrt (Fin a) = (if a < 0 then NaN else Fin (sqrt a))"
| "fsqrt PInf = PInf"
| "fsqrt NInf = NaN"
| "fsqrt NaN = NaN"

text \<open>The comparisons \<^verbatim>\<open>x == 0\<close> and \<^verbatim>\<open>x < c\<close>; both are false on NaN.\<close>

fun feq0 :: "f64 \<Rightarrow> bool" where
  "feq0 (Fin a) = (a = 0)"
| "feq0 _ = False"

fun flt :: "f64 \<Rightarrow> real \<Rightarrow> bool" where
  "flt (Fin a) c = (a < c)"
| "flt NInf c = True"
| "flt _ c = False"

text \<open>\<^verbatim>\<open>fillna(v)\<close> on one cell: only NaN is replaced, an infinity stays.\<close>

fun fillna :: "real \<Rightarrow> f64 \<Rightarrow> f64" where
  "fillna v NaN = Fin v"
| "fillna v x = x"

definition flag :: "bool \<Rightarrow> f64" where
  "flag b = (if b then Fin 1 else Fin 0)"

definition fsum :: "f64 list \<Rightarrow> f64" where
  "fsum xs = foldl fadd (Fin 0) xs"

subsection \<open>Telemetry records and data frames\<close>

text \<open>
  One \<^verbatim>\<open>row_dict\<close> of \<^verbatim>\<open>subscription_callback\<close>: the three identity entries
  and one float for each metric (what \<^verbatim>\<open>_extract_value\<close> returns).  The
  \<^verbatim>\<open>Timestamp\<close> is the instant of \<^verbatim>\<open>datetime.now()\<close>, in nanoseconds since the
  epoch: the text \<^verbatim>\<open>isoformat()\<close> writes and \<^verbatim>\<open>pd.to_datetime\<close> reads back is
  not modelled.  Metric names are taken to differ from the three identity names.
\<close>

record telemetry =
  Timestamp :: int
  E2AgentID :: string
  UE_ID :: int
  measurements :: "(string \<times> f64) list"

text \<open>
  A \<^verbatim>\<open>DataFrame\<close> of telemetry: its column labels and its rows.  A frame can have
  no column at all (\<^verbatim>\<open>pd.DataFrame([])\<close>), or columns and no row.
\<close>

record frame =
  fcolumns :: "string list"
  frows :: "telemetry list"

definition id_columns :: "string list" where
  "id_columns = [''Timestamp'', ''E2AgentID'', ''UE_ID'']"

definition dict_keys :: "telemetry \<Rightarrow> string list" where
  "dict_keys d = id_columns @ map fst (measurements d)"

text \<open>
  \<^verbatim>\<open>pd.DataFrame(list_of_dicts)\<close>: the columns are the keys of the dictionaries in
  the order they first appear; a cell whose dictionary lacks the key is NaN.
\<close>

definition keys_union :: "string list list \<Rightarrow> string list" where
  "keys_union kss =
     foldl (\<lambda>acc ks. foldl (\<lambda>acc k. if k \<in> set acc then acc else acc @ [k]) acc ks) [] kss"

definition col :: "telemetry \<Rightarrow> string \<Rightarrow> f64" where
  "col r c = (case map_of (measurements r) c of Some v \<Rightarrow> v | None \<Rightarrow> NaN)"

definition DataFrame :: "telemetry list \<Rightarrow> frame" where
  "DataFrame ds =
     (let cols = keys_union (map dict_keys ds);
          metric_cols = filter (\<lambda>c. c \<notin> set id_columns) cols
      in \<lparr>fcolumns = cols,
          frows = map (\<lambda>d. d\<lparr>measurements := map (\<lambda>c. (c, col d c)) metric_cols\<rparr>) ds\<rparr>)"

text \<open>
  A cell of a feature table, and the table: the column labels and, for each row, the
  cells by label.
\<close>

datatype cell = F f64 | I int | S string | T int

type_synonym trow = "(string \<times> cell) list"

record table =
  tcolumns :: "string list"
  trows :: "trow list"

text \<open>\<^verbatim>\<open>df.empty\<close>: some axis has length 0.\<close>

definition empty_table :: "table \<Rightarrow> bool" where
  "empty_table t = (tcolumns t = [] \<or> trows t = [])"

text \<open>
  \<^verbatim>\<open>df.reindex(columns=cols, fill_value=v)\<close>.  With \<^verbatim>\<open>columns=None\<close> pandas
  conforms no axis and returns a copy of the frame as it is.
\<close>

definition reindex :: "string list option \<Rightarrow> cell \<Rightarrow> table \<Rightarrow> table" where
  "reindex cols fill_value t =
     (case cols of
        None \<Rightarrow> t
      | Some cs \<Rightarrow>
          \<lparr>tcolumns = cs,
           trows = map (\<lambda>r. map (\<lambda>c. (c, case map_of r c of Some v \<Rightarrow> v | None \<Rightarrow> fill_value)) cs)
                       (trows t)\<rparr>)"

subsection \<open>Rolling statistics\<close>

text \<open>
  \<^verbatim>\<open>rolling(window=w, min_periods=1)\<close>: row \<open>i\<close> sees the rows \<open>i - w + 1, ..., i\<close>
  that exist.  pandas turns an infinity into NaN before it aggregates, and an aggregate
  counts only the observations that are not NaN.
\<close>

definition window :: "nat \<Rightarrow> 'a list \<Rightarrow> nat \<Rightarrow> 'a list" where
  "window w xs i = drop (Suc i - w) (take (Suc i) xs)"

definition observations :: "f64 list \<Rightarrow> f64 list" where
  "observations xs = filter is_finite xs"

text \<open>The mean of a window: NaN below \<^verbatim>\<open>min_periods = 1\<close> observations.\<close>

definition roll_mean :: "f64 list \<Rightarrow> f64" where
  "roll_mean xs =
     (let obs = observations xs; nobs = length obs
      in if 1 \<le> nobs then fdiv (fsum obs) (Fin (real nobs)) else NaN)"

text \<open>
  The standard deviation of a window, with pandas' default \<^verbatim>\<open>ddof = 1\<close>: the
  variance is NaN unless \<^verbatim>\<open>nobs >= min_periods\<close> and \<^verbatim>\<open>nobs > ddof\<close>, else the sum
  of the squared deviations from the mean over \<^verbatim>\<open>nobs - ddof\<close> (the value of pandas'
  online update in exact arithmetic); the deviation is its square root.
\<close>

definition roll_var :: "f64 list \<Rightarrow> f64" where
  "roll_var xs =
     (let obs = observations xs; nobs = length obs
      in if 1 \<le> nobs \<and> 1 < nobs then
           (let m = fdiv (fsum obs) (Fin (real nobs))
            in fdiv (fsum (map (\<lambda>x. fmul (fsub x m) (fsub x m)) obs)) (Fin (real (nobs - 1))))
         else NaN)"

definition roll_std :: "f64 list \<Rightarrow> f64" where
  "roll_std xs = fsqrt (roll_var xs)"

subsection \<open>The xApp object\<close>

text \<open>
  A loaded model is a black box.  An \<^verbatim>\<open>nn.Module\<close> maps the batch (one feature
  vector for each row) to a tensor of dimension 1 (one score for each row) or 2 (one score
  vector for each row); any other object is used through \<^verbatim>\<open>predict\<close>, which gives
  one class for each row.  An attribute that holds \<^verbatim>\<open>None\<close> is \<open>None\<close>.

  The scores of a module are \<^verbatim>\<open>float32\<close> numbers of the torch library, and so is what
  \<^verbatim>\<open>torch.sigmoid\<close> makes of them (line 220): a rounded value, not the exact one (for
  the score \<open>1e-8\<close> it is 0.5 exactly).  That routine is no code of the repository; the
  module carries it as its second component, a function from a score to the
  \<^verbatim>\<open>float32\<close> result read as a real, of which nothing is fixed here.  What a theorem
  needs of it, it states.
\<close>

datatype tensor = Tensor1 "real list" | Tensor2 "real list list"

datatype model =
    Module "f64 list list \<Rightarrow> tensor" "real \<Rightarrow> real"
  | Estimator "f64 list list \<Rightarrow> int list"

record xapp =
  metric_names :: "string list"
  data_buffer :: "telemetry list"
  buffer_size :: int
  selected_features :: "string list option"
  s1_model :: "model option"
  s1_features :: "string list option"
  s2_ben_model :: "model option"
  s2_ben_features :: "string list option"
  s2_mal_model :: "model option"
  s2_mal_features :: "string list option"
  le_malicious :: "string list"
  le_benign :: "string list"

text \<open>
  What \<^verbatim>\<open>joblib.load\<close> does on an artifact: it returns the pair of a model and the
  feature names the model was fit on, or raises.
\<close>

datatype load = Loaded model "string list" | FileNotFoundError | OtherException

text \<open>
  \<^verbatim>\<open>__init__\<close> (lines 20--73).  The three loads share one \<^verbatim>\<open>try\<close>: the first
  that raises ends the block, its exception is printed, and the attributes not yet
  assigned keep \<^verbatim>\<open>None\<close>.  Nothing assigns \<^verbatim>\<open>selected_features\<close> but line 26.
\<close>

definition init :: "load \<Rightarrow> load \<Rightarrow> load \<Rightarrow> int \<Rightarrow> xapp" where
  "init s1 s2_ben s2_mal bsize =
     (let self = \<lparr>metric_names = [], data_buffer = [], buffer_size = bsize,
                  selected_features = None,
                  s1_model = None, s1_features = None,
                  s2_ben_model = None, s2_ben_features = None,
                  s2_mal_model = None, s2_mal_features = None,
                  le_malicious = [''parallel_tcp_flood'', ''udp_fragmentation_flood'', ''udp_flood'',
                                  ''small_packet_flood'', ''pulsing_udp_flood'', ''parallel_udp_flood'',
                                  ''parallel_tcp_flood''],
                  le_benign = [''embb'', ''mtc'', ''urllc'', ''voip'']\<rparr>
      in case s1 of
           Loaded m1 f1 \<Rightarrow>
             (let self = self\<lparr>s1_model := Some m1, s1_features := Some f1\<rparr>
              in case s2_ben of
                   Loaded m2 f2 \<Rightarrow>
                     (let self = self\<lparr>s2_ben_model := Some m2, s2_ben_features := Some f2\<rparr>
                      in case s2_mal of
                           Loaded m3 f3 \<Rightarrow> self\<lparr>s2_mal_model := Some m3, s2_mal_features := Some f3\<rparr>
                         | _ \<Rightarrow> self)
                 | _ \<Rightarrow> self)
         | _ \<Rightarrow> self)"

text \<open>\<^verbatim>\<open>start\<close> stores the metric names of the subscription (line 461).\<close>

definition start :: "xapp \<Rightarrow> string list \<Rightarrow> xapp" where
  "start self names = self\<lparr>metric_names := names\<rparr>"

subsection \<open>Feature engineering (\_feature\_engineer\_network\_data, lines 87--184)\<close>

definition epsilon :: f64 where
  "epsilon = Fin (1 / 100000)"

text \<open>The raw columns that lines 105--121 read; reading an absent column raises.\<close>

definition required_columns :: "string list" where
  "required_columns =
     [''RRU.PrbUsedDl'', ''RRU.PrbAvailDl'', ''RRU.PrbUsedUl'', ''RRU.PrbAvailUl'',
      ''DRB.UEThpUl'', ''DRB.UEThpDl'', ''RSRP'', ''RSRQ'', ''CQI'',
      ''DRB.RlcSduTransmittedVolumeUL'', ''DRB.RlcSduTransmittedVolumeDL'',
      ''DRB.RlcSduDelayDl'', ''DRB.RlcDelayUl'']"

text \<open>\<^verbatim>\<open>sort_values(by=["E2AgentID", "UE_ID", "Timestamp"])\<close>, a stable sort.\<close>

definition sort_values :: "telemetry list \<Rightarrow> telemetry list" where
  "sort_values rs = sort_key (\<lambda>r. (E2AgentID r, UE_ID r, Timestamp r)) rs"

definition group_key :: "telemetry \<Rightarrow> string \<times> int" where
  "group_key r = (E2AgentID r, UE_ID r)"

text \<open>\<^verbatim>\<open>df.fillna(0, inplace=True)\<close> on the content of the frame.\<close>

definition fillna0 :: "frame \<Rightarrow> frame" where
  "fillna0 f =
     f\<lparr>frows := map (\<lambda>r. r\<lparr>measurements := map (\<lambda>(c, v). (c, fillna 0 v)) (measurements r)\<rparr>)
                     (frows f)\<rparr>"

text \<open>
  \<^verbatim>\<open>groupby(...)[c].diff()\<close>: each value minus the value of the previous row of the
  same group, NaN on the first row of a group.  \<open>seen\<close> holds the rows already passed,
  the latest first.
\<close>

fun group_diff :: "('k \<times> f64) list \<Rightarrow> ('k \<times> f64) list \<Rightarrow> f64 list" where
  "group_diff seen [] = []"
| "group_diff seen ((k, x) # kxs) =
     (case map_of seen k of None \<Rightarrow> NaN | Some p \<Rightarrow> fsub x p) # group_diff ((k, x) # seen) kxs"

definition jitter :: "string \<Rightarrow> telemetry list \<Rightarrow> f64 list" where
  "jitter c rs = map (fillna 0) (group_diff [] (map (\<lambda>r. (group_key r, col r c)) rs))"

text \<open>
  The dictionary \<^verbatim>\<open>new_features\<close> of one row (lines 104--122), in the order of its
  keys; \<open>jdl\<close> and \<open>jul\<close> are the two jitters of the row.
\<close>

definition new_features :: "telemetry \<Rightarrow> f64 \<Rightarrow> f64 \<Rightarrow> (string \<times> f64) list" where
  "new_features r jdl jul =
     (let PRB_Utilization_Ratio_DL = fdiv (col r ''RRU.PrbUsedDl'') (fadd (col r ''RRU.PrbAvailDl'') epsilon);
          PRB_Utilization_Ratio_UL = fdiv (col r ''RRU.PrbUsedUl'') (fadd (col r ''RRU.PrbAvailUl'') epsilon)
      in [(''PRB_Utilization_Ratio_DL'', PRB_Utilization_Ratio_DL),
          (''PRB_Utilization_Ratio_UL'', PRB_Utilization_Ratio_UL),
          (''UL_PRB_Efficiency'', fdiv (col r ''DRB.UEThpUl'') (fadd (col r ''RRU.PrbUsedUl'') epsilon)),
          (''DL_PRB_Efficiency'', fdiv (col r ''DRB.UEThpDl'') (fadd (col r ''RRU.PrbUsedDl'') epsilon)),
          (''Resource_Imbalance'', fabs (fsub PRB_Utilization_Ratio_DL PRB_Utilization_Ratio_UL)),
          (''Signal_Quality_Index'',
             fdiv (fadd (fadd (col r ''RSRP'') (col r ''RSRQ'')) (col r ''CQI'')) (Fin 3)),
          (''Throughput_Asymmetry'', fdiv (col r ''DRB.UEThpDl'') (fadd (col r ''DRB.UEThpUl'') epsilon)),
          (''UL_Throughput_per_Volume'',
             fdiv (col r ''DRB.UEThpUl'') (fadd (col r ''DRB.RlcSduTransmittedVolumeUL'') epsilon)),
          (''DL_Throughput_per_Volume'',
             fdiv (col r ''DRB.UEThpDl'') (fadd (col r ''DRB.RlcSduTransmittedVolumeDL'') epsilon)),
          (''Avg_RlcDelay'', fdiv (fadd (col r ''DRB.RlcSduDelayDl'') (col r ''DRB.RlcDelayUl'')) (Fin 2)),
          (''Delay_Imbalance'', fsub (col r ''DRB.RlcSduDelayDl'') (col r ''DRB.RlcDelayUl'')),
          (''CQI_Normalized'', fdiv (col r ''CQI'') (Fin 15)),
          (''DelayJitterDl'', jdl),
          (''DelayJitterUl'', jul),
          (''Zero_PRB_Flag'', flag (feq0 (col r ''RRU.PrbUsedDl'') \<and> feq0 (col r ''RRU.PrbUsedUl''))),
          (''Zero_Throughput_Flag'', flag (feq0 (col r ''DRB.UEThpDl'') \<and> feq0 (col r ''DRB.UEThpUl''))),
          (''Poor_Signal_Flag'',
             flag (flt (col r ''CQI'') 5 \<or> flt (col r ''RSRP'') (- 110) \<or> flt (col r ''RSRQ'') (- 15))),
          (''Timestamp_epoch'', Fin (of_int (Timestamp r div 10 ^ 9)))])"

text \<open>
  \<^verbatim>\<open>pd.concat([df, pd.DataFrame(new_features)], axis=1)\<close> on the rows (line 123).
  Metric names are taken to differ from the names of the derived features, so that a
  label names one column.
\<close>

definition with_new_features :: "telemetry list \<Rightarrow> telemetry list" where
  "with_new_features rs =
     map (\<lambda>(r, jdl, jul). r\<lparr>measurements := measurements r @ new_features r jdl jul\<rparr>)
         (zip rs (zip (jitter ''DRB.RlcSduDelayDl'' rs) (jitter ''DRB.RlcDelayUl'' rs)))"

definition rolling_features_to_calculate :: "string list" where
  "rolling_features_to_calculate =
     [''RRU.PrbUsedUl'', ''DRB.UEThpUl'', ''DRB.UEThpDl'', ''DRB.RlcSduTransmittedVolumeUL'',
      ''DRB.RlcSduTransmittedVolumeDL'', ''DRB.RlcSduDelayDl'', ''DRB.RlcDelayUl'', ''CQI'', ''RSRP'',
      ''UL_PRB_Efficiency'', ''DL_PRB_Efficiency'', ''UL_Throughput_per_Volume'',
      ''DL_Throughput_per_Volume'', ''Avg_RlcDelay'', ''Delay_Imbalance'', ''CQI_Normalized'',
      ''PRB_Utilization_Ratio_DL'', ''PRB_Utilization_Ratio_UL'', ''Resource_Imbalance'',
      ''Signal_Quality_Index'', ''Throughput_Asymmetry'', ''DelayJitterDl'', ''DelayJitterUl'']"

definition flag_features :: "string list" where
  "flag_features = [''Zero_PRB_Flag'', ''Zero_Throughput_Flag'', ''Poor_Signal_Flag'']"

definition all_features_to_roll :: "string list" where
  "all_features_to_roll = rolling_features_to_calculate @ flag_features"

definition window_size :: nat where
  "window_size = 5"

text \<open>
  \<^verbatim>\<open>df.groupby(["E2AgentID", "UE_ID"])\<close>, iterated: the groups by ascending key, each
  with its rows in the order of the frame.
\<close>

definition groupby :: "telemetry list \<Rightarrow> ((string \<times> int) \<times> telemetry list) list" where
  "groupby rs =
     map (\<lambda>k. (k, filter (\<lambda>r. group_key r = k) rs)) (sort (remdups (map group_key rs)))"

text \<open>
  The body of the loop over the groups (lines 141--148): row \<open>i\<close> of
  \<^verbatim>\<open>rolled_data\<close>, for the group \<open>g\<close> sorted by its timestamps.
\<close>

definition rolled_row :: "string \<times> int \<Rightarrow> telemetry list \<Rightarrow> nat \<Rightarrow> trow" where
  "rolled_row key g i =
     concat (map (\<lambda>c. let w = window window_size (map (\<lambda>r. col r c) g) i
                       in [(c @ ''_mean'', F (roll_mean w)), (c @ ''_std'', F (roll_std w))])
                 all_features_to_roll)
     @ [(''E2AgentID'', S (fst key)), (''UE_ID'', I (snd key)),
        (''Timestamp'', T (Timestamp (g ! i))),
        (''Timestamp_epoch'', I (Timestamp (g ! i) div 10 ^ 9))]"

definition rolled_data :: "string \<times> int \<Rightarrow> telemetry list \<Rightarrow> trow list" where
  "rolled_data key grp =
     (let g = sort_key Timestamp grp in map (rolled_row key g) [0..<length g])"

definition rolled_columns :: "string list" where
  "rolled_columns =
     concat (map (\<lambda>c. [c @ ''_mean'', c @ ''_std'']) all_features_to_roll)
     @ [''E2AgentID'', ''UE_ID'', ''Timestamp'', ''Timestamp_epoch'']"

text \<open>
  Lines 104--184, on the content of the frame that lines 92--102 prepared: the derived
  features, the rolling statistics of each group, the concatenation and the reindexing on
  \<^verbatim>\<open>self.selected_features\<close>.  Without a group the result is \<^verbatim>\<open>pd.DataFrame()\<close>.
\<close>

definition engineer :: "xapp \<Rightarrow> frame \<Rightarrow> error + table" where
  "engineer self df =
     (if \<not> set required_columns \<subseteq> set (fcolumns df) then Inl KeyError
      else
        (let final_dfs = map (\<lambda>(key, grp). rolled_data key grp)
                             (groupby (with_new_features (frows df)))
         in if final_dfs = [] then Inr \<lparr>tcolumns = [], trows = []\<rparr>
            else Inr (reindex (selected_features self) (F (Fin 0))
                        \<lparr>tcolumns = rolled_columns, trows = concat final_dfs\<rparr>)))"

text \<open>
  The objects the function touches live in a store, a list of frames addressed by
  position.  \<^verbatim>\<open>copy()\<close> and \<^verbatim>\<open>sort_values\<close> make a new object; an assignment to
  a column and \<^verbatim>\<open>fillna(..., inplace=True)\<close> change the object \<^verbatim>\<open>df\<close> names.
\<close>

type_synonym store = "frame list"

definition new_object :: "store \<Rightarrow> frame \<Rightarrow> nat \<times> store" where
  "new_object h f = (length h, h @ [f])"

text \<open>
  The loop of lines 100--101.  Reading a column the frame lacks raises; the cells of a
  metric column are floats already, so \<^verbatim>\<open>pd.to_numeric\<close> stores them back as they are.
\<close>

fun to_numeric_columns :: "string list \<Rightarrow> store \<Rightarrow> nat \<Rightarrow> error option \<times> store" where
  "to_numeric_columns [] h df = (None, h)"
| "to_numeric_columns (c # cs) h df =
     (if c \<notin> set (fcolumns (h ! df)) then (Some KeyError, h)
      else to_numeric_columns cs (h[df := h ! df]) df)"

text \<open>
  Lines 92--102: the copy, the timestamps (a frame without the column raises; the instants
  are stored back as they are), the sort, the numeric coercion and the in-place
  \<^verbatim>\<open>fillna\<close>.  The result is the address \<^verbatim>\<open>df\<close> ends with, or the exception, and
  the store.
\<close>

definition prepare :: "xapp \<Rightarrow> store \<Rightarrow> nat \<Rightarrow> (error + nat) \<times> store" where
  "prepare self h cleaned_dataset =
     (let (df, h1) = new_object h (h ! cleaned_dataset)
      in if ''Timestamp'' \<notin> set (fcolumns (h1 ! df)) then (Inl KeyError, h1)
         else if \<not> set [''E2AgentID'', ''UE_ID'', ''Timestamp''] \<subseteq> set (fcolumns (h1 ! df))
         then (Inl KeyError, h1)
         else
           (let (df, h2) = new_object h1 ((h1 ! df)\<lparr>frows := sort_values (frows (h1 ! df))\<rparr>)
            in case to_numeric_columns (metric_names self) h2 df of
                 (Some e, h3) \<Rightarrow> (Inl e, h3)
               | (None, h3) \<Rightarrow> (Inr df, h3[df := fillna0 (h3 ! df)])))"

definition feature_engineer_network_data ::
    "xapp \<Rightarrow> store \<Rightarrow> nat \<Rightarrow> (error + table) \<times> store" where
  "feature_engineer_network_data self h cleaned_dataset =
     (case prepare self h cleaned_dataset of
        (Inl e, h') \<Rightarrow> (Inl e, h')
      | (Inr df, h') \<Rightarrow> (engineer self (h' ! df), h'))"

text \<open>The function on a frame that is the only object of the store.\<close>

definition transform :: "xapp \<Rightarrow> frame \<Rightarrow> error + table" where
  "transform self cleaned_dataset = fst (feature_engineer_network_data self [cleaned_dataset] 0)"

text \<open>The rows of \<^verbatim>\<open>final_df\<close> before the reindexing (line 153), from the frame passed in.\<close>

definition final_rows :: "frame \<Rightarrow> trow list" where
  "final_rows f = concat (map (\<lambda>(key, grp). rolled_data key grp)
     (groupby (with_new_features (frows (fillna0 (f\<lparr>frows := sort_values (frows f)\<rparr>))))))"


text \<open>
  The derived ratio and efficiency features (each a quotient with \<open>epsilon\<close> added to
  its denominator) and the raw columns they read.
\<close>

definition ratio_features :: "string list" where
  "ratio_features =
     [''PRB_Utilization_Ratio_DL'', ''PRB_Utilization_Ratio_UL'', ''UL_PRB_Efficiency'',
      ''DL_PRB_Efficiency'', ''Throughput_Asymmetry'', ''UL_Throughput_per_Volume'',
      ''DL_Throughput_per_Volume'']"

definition ratio_inputs :: "string list" where
  "ratio_inputs =
     [''RRU.PrbUsedDl'', ''RRU.PrbAvailDl'', ''RRU.PrbUsedUl'', ''RRU.PrbAvailUl'',
      ''DRB.UEThpUl'', ''DRB.UEThpDl'', ''DRB.RlcSduTransmittedVolumeUL'',
      ''DRB.RlcSduTransmittedVolumeDL'']"

subsection \<open>The cascade (predict\_cascaded, lines 186--297)\<close>

text \<open>Indexing a Python list: a negative index counts from the end.\<close>

definition py_index :: "'a list \<Rightarrow> int \<Rightarrow> error + 'a" where
  "py_index xs i =
     (if 0 \<le> i \<and> i < int (length xs) then Inr (xs ! nat i)
      else if i < 0 \<and> - int (length xs) \<le> i then Inr (xs ! nat (int (length xs) + i))
      else Inl IndexError)"

definition first :: "'a list \<Rightarrow> error + 'a" where
  "first xs = (case xs of [] \<Rightarrow> Inl IndexError | x # _ \<Rightarrow> Inr x)"

text \<open>
  \<^verbatim>\<open>feature_data['UE_ID'].values\<close>.  A table without the column raises.  The tables
  \<^verbatim>\<open>_feature_engineer_network_data\<close> builds hold an integer in that column; a cell of
  another kind is outside what is modelled and is reported as a \<^verbatim>\<open>TypeError\<close>.
\<close>

definition ue_id_values :: "table \<Rightarrow> error + int list" where
  "ue_id_values t =
     (if ''UE_ID'' \<notin> set (tcolumns t) then Inl KeyError
      else mapE (\<lambda>r. case map_of r ''UE_ID'' of Some (I n) \<Rightarrow> Inr n | _ \<Rightarrow> Inl TypeError) (trows t))"

text \<open>\<^verbatim>\<open>drop(columns=cs, errors='ignore')\<close>.\<close>

definition drop_columns :: "string list \<Rightarrow> table \<Rightarrow> table" where
  "drop_columns cs t =
     \<lparr>tcolumns = filter (\<lambda>c. c \<notin> set cs) (tcolumns t),
      trows = map (filter (\<lambda>(c, v). c \<notin> set cs)) (trows t)\<rparr>"

text \<open>
  \<^verbatim>\<open>pd.to_numeric(errors='coerce')\<close> on a cell: a number stays, an instant becomes its
  nanoseconds, text that is no number becomes NaN.
\<close>

fun to_numeric :: "cell \<Rightarrow> f64" where
  "to_numeric (F x) = x"
| "to_numeric (I n) = Fin (of_int n)"
| "to_numeric (T t) = Fin (of_int t)"
| "to_numeric (S s) = NaN"

text \<open>
  Lines 203--212: the identifiers are dropped, the columns are aligned to
  \<^verbatim>\<open>selected_features\<close> when that list is there and not empty, every cell is made
  numeric and NaN becomes 0.  The cast to \<^verbatim>\<open>float32\<close> is not modelled: the matrix only
  feeds the models, which are black boxes.
\<close>

definition identifiers :: "string list" where
  "identifiers = [''E2AgentID'', ''UE_ID'', ''Timestamp'']"

definition model_input :: "xapp \<Rightarrow> table \<Rightarrow> f64 list list" where
  "model_input self feature_data =
     (let X_df = drop_columns identifiers feature_data;
          X_df = (case selected_features self of
                    None \<Rightarrow> X_df
                  | Some [] \<Rightarrow> X_df
                  | Some fs \<Rightarrow>
                      reindex (Some (filter (\<lambda>f. f \<notin> set [''UE_ID'', ''E2AgentID'', ''Timestamp'']) fs))
                              (F (Fin 0)) X_df)
      in map (map (\<lambda>(c, v). fillna 0 (to_numeric v))) (trows X_df))"

text \<open>
  A numpy array of class indices: of dimension 0 (what \<^verbatim>\<open>squeeze()\<close> leaves of a
  single score) or of dimension 1.
\<close>

datatype ndarray = Array0 int | Array1 "int list"

text \<open>
  \<^verbatim>\<open>(torch.sigmoid(out.squeeze()) > 0.5).long().cpu().numpy()\<close> on the scores, with
  \<open>torch_sigmoid\<close> for the \<^verbatim>\<open>float32\<close> routine of the library.  \<^verbatim>\<open>squeeze()\<close> leaves
  dimension 0 of a single score.
\<close>

definition threshold :: "(real \<Rightarrow> real) \<Rightarrow> real list \<Rightarrow> ndarray" where
  "threshold torch_sigmoid out =
     (case out of
        [x] \<Rightarrow> Array0 (if 1 / 2 < torch_sigmoid x then 1 else 0)
      | _ \<Rightarrow> Array1 (map (\<lambda>x. if 1 / 2 < torch_sigmoid x then 1 else 0) out))"

text \<open>
  \<^verbatim>\<open>argmax\<close> over one score vector: the index of the first largest score; torch
  raises an \<^verbatim>\<open>IndexError\<close> on a vector of size 0.
\<close>

fun argmax_from :: "real \<Rightarrow> nat \<Rightarrow> nat \<Rightarrow> real list \<Rightarrow> nat" where
  "argmax_from best bi i [] = bi"
| "argmax_from best bi i (x # xs) =
     (if best < x then argmax_from x i (Suc i) xs else argmax_from best bi (Suc i) xs)"

definition argmax :: "real list \<Rightarrow> error + int" where
  "argmax xs = (case xs of [] \<Rightarrow> Inl IndexError | x # rest \<Rightarrow> Inr (int (argmax_from x 0 1 rest)))"

definition shape1 :: "real list list \<Rightarrow> nat" where
  "shape1 out = (case out of [] \<Rightarrow> 0 | r # _ \<Rightarrow> length r)"

text \<open>
  Stage 1 (lines 214--225) on the whole batch.  A module whose output has dimension 1, or
  dimension 2 with one column, gives one score for each row: the sigmoid of the score, as
  the library computes it, is compared with 0.5.  Otherwise the class is the argmax of the
  row.  An object that is no module is asked to \<^verbatim>\<open>predict\<close>; \<^verbatim>\<open>None\<close> has no
  such attribute.
\<close>

definition stage1 :: "model option \<Rightarrow> f64 list list \<Rightarrow> error + ndarray" where
  "stage1 s1 X_np =
     (case s1 of
        None \<Rightarrow> Inl AttributeError
      | Some (Module net torch_sigmoid) \<Rightarrow>
          (case net X_np of
             Tensor1 out \<Rightarrow> Inr (threshold torch_sigmoid out)
           | Tensor2 out \<Rightarrow>
               if shape1 out = 1 then Inr (threshold torch_sigmoid (concat out))
               else (case mapE argmax out of Inl e \<Rightarrow> Inl e | Inr ps \<Rightarrow> Inr (Array1 ps)))
      | Some (Estimator clf) \<Rightarrow> Inr (Array1 (clf X_np)))"

text \<open>
  Lines 227--233: the majority of the stage-1 classes of each UE, which is printed.
  \<^verbatim>\<open>binary_preds[i]\<close> raises on an array of dimension 0 and past the end of the array.
\<close>

definition per_ue_stage1 :: "ndarray \<Rightarrow> int list \<Rightarrow> error + (int \<times> string) list" where
  "per_ue_stage1 binary_preds ue_ids =
     (case binary_preds of
        Array0 _ \<Rightarrow> Inl IndexError
      | Array1 ps \<Rightarrow>
          mapE (\<lambda>ue.
                  case mapE (\<lambda>i. if i < length ps then Inr (ps ! i) else Inl IndexError)
                            (filter (\<lambda>i. ue_ids ! i = ue) [0..<length ue_ids]) of
                    Inl e \<Rightarrow> Inl e
                  | Inr ue_preds \<Rightarrow>
                      (case most_common_key ue_preds of
                         Inl e \<Rightarrow> Inl e
                       | Inr most_common \<Rightarrow>
                           Inr (ue, if most_common \<noteq> 0 then ''Malicious'' else ''Benign'')))
               (np_unique ue_ids))"

text \<open>
  Stage 2 on one row: the class index \<^verbatim>\<open>pred_enc[0]\<close> the model gives for the batch
  of that single row.  \<^verbatim>\<open>argmax(dim=1)\<close> raises on a tensor of dimension 1.
\<close>

definition stage2 :: "model option \<Rightarrow> f64 list \<Rightarrow> error + int" where
  "stage2 s2 x_sample =
     (case s2 of
        None \<Rightarrow> Inl AttributeError
      | Some (Module net torch_sigmoid) \<Rightarrow>
          (case net [x_sample] of
             Tensor1 out \<Rightarrow> Inl IndexError
           | Tensor2 out \<Rightarrow> (case mapE argmax out of Inl e \<Rightarrow> Inl e | Inr pred_enc \<Rightarrow> first pred_enc))
      | Some (Estimator clf) \<Rightarrow> first (clf [x_sample]))"

text \<open>The body of the loop of lines 242--269: the label of one row.\<close>

definition cascade_prediction :: "xapp \<Rightarrow> f64 list \<Rightarrow> int \<Rightarrow> error + string" where
  "cascade_prediction self x_sample pred =
     (if pred = 0 then
        (case stage2 (s2_ben_model self) x_sample of
           Inl e \<Rightarrow> Inl e
         | Inr pred_enc \<Rightarrow>
             (case py_index (le_benign self) pred_enc of
                Inl e \<Rightarrow> Inl e
              | Inr pred_label \<Rightarrow> Inr (''Benign-'' @ pred_label)))
      else
        (case stage2 (s2_mal_model self) x_sample of
           Inl e \<Rightarrow> Inl e
         | Inr pred_enc \<Rightarrow>
             (case py_index (le_malicious self) pred_enc of
                Inl e \<Rightarrow> Inl e
              | Inr pred_label \<Rightarrow> Inr (''Malicious-'' @ pred_label))))"

text \<open>
  The loop itself: iterating an array of dimension 0 raises a \<^verbatim>\<open>TypeError\<close>, and
  \<^verbatim>\<open>X_np[[i]]\<close> raises past the last row.
\<close>

definition final_preds :: "xapp \<Rightarrow> f64 list list \<Rightarrow> ndarray \<Rightarrow> error + string list" where
  "final_preds self X_np binary_preds =
     (case binary_preds of
        Array0 _ \<Rightarrow> Inl TypeError
      | Array1 ps \<Rightarrow>
          mapE (\<lambda>(i, pred). if i < length X_np then cascade_prediction self (X_np ! i) pred
                             else Inl IndexError)
               (zip [0..<length ps] ps))"

text \<open>
  The whole function.  It prints and returns \<^verbatim>\<open>None\<close>; its result here is what it
  prints last, the dictionary \<^verbatim>\<open>per_ue_status\<close>, or \<open>None\<close> when it stops at
  ``No data for prediction''.
\<close>

definition predict_cascaded :: "xapp \<Rightarrow> table \<Rightarrow> error + (int \<times> string) list option" where
  "predict_cascaded self feature_data =
     (if empty_table feature_data then Inr None
      else
        (case ue_id_values feature_data of
           Inl e \<Rightarrow> Inl e
         | Inr ue_ids \<Rightarrow>
             (let X_np = model_input self feature_data
              in case stage1 (s1_model self) X_np of
                   Inl e \<Rightarrow> Inl e
                 | Inr binary_preds \<Rightarrow>
                     (case per_ue_stage1 binary_preds ue_ids of
                        Inl e \<Rightarrow> Inl e
                      | Inr stage1_summary \<Rightarrow>
                          (case final_preds self X_np binary_preds of
                             Inl e \<Rightarrow> Inl e
                           | Inr cascade \<Rightarrow>
                               (case aggregate (zip ue_ids cascade) of
                                  Inl e \<Rightarrow> Inl e
                                | Inr per_ue_status \<Rightarrow> Inr (Some per_ue_status)))))))"





text \<open>
  What the cascade needs of the loaded models on a batch \<open>X\<close>, stated on the black boxes
  themselves.  A stage-1 model answers the batch when it gives one class for each row:
  an estimator as many classes as rows; a module one score for each row, on a batch of
  more than one row, or one score vector, not empty, for each row.
\<close>

definition stage1_answers :: "model \<Rightarrow> f64 list list \<Rightarrow> bool" where
  "stage1_answers m X =
     (case m of
        Estimator clf \<Rightarrow> length (clf X) = length X
      | Module net torch_sigmoid \<Rightarrow>
          (case net X of
             Tensor1 out \<Rightarrow> length out = length X \<and> length out \<noteq> 1
           | Tensor2 out \<Rightarrow>
               length out = length X \<and> shape1 out \<noteq> 0
               \<and> list_all (\<lambda>r. length r = shape1 out) out
               \<and> (shape1 out \<noteq> 1 \<or> length out \<noteq> 1)))"

text \<open>
  A stage-2 model answers the row \<open>x\<close> within a vocabulary of \<open>n\<close> entries when the
  class index it gives for the batch of that row is one Python accepts on a list of
  \<open>n\<close> entries: an estimator gives a first class from \<open>-n\<close> to \<open>n - 1\<close>; a module
  gives score vectors of at least one and at most \<open>n\<close> scores.
\<close>

definition stage2_answers :: "model \<Rightarrow> nat \<Rightarrow> f64 list \<Rightarrow> bool" where
  "stage2_answers m n x =
     (case m of
        Estimator clf \<Rightarrow>
          (case clf [x] of [] \<Rightarrow> False | c # _ \<Rightarrow> - int n \<le> c \<and> c < int n)
      | Module net torch_sigmoid \<Rightarrow>
          (case net [x] of
             Tensor1 out \<Rightarrow> False
           | Tensor2 out \<Rightarrow> out \<noteq> [] \<and> list_all (\<lambda>r. r \<noteq> [] \<and> length r \<le> n) out))"

text \<open>The entities of a batch: the values of its column \<^verbatim>\<open>UE_ID\<close>.\<close>

definition has_ue :: "table \<Rightarrow> int \<Rightarrow> bool" where
  "has_ue feature_data ue = list_ex (\<lambda>r. map_of r ''UE_ID'' = Some (I ue)) (trows feature_data)"

text \<open>The column \<^verbatim>\<open>UE_ID\<close> holds an integer in every row, as the feature engineering leaves it.\<close>

definition ue_id_column :: "table \<Rightarrow> bool" where
  "ue_id_column feature_data =
     (''UE_ID'' \<in> set (tcolumns feature_data)
      \<and> list_all (\<lambda>r. case map_of r ''UE_ID'' of Some (I n) \<Rightarrow> True | _ \<Rightarrow> False) (trows feature_data))"

subsection \<open>Ingestion (subscription\_callback, lines 415--454)\<close>

text \<open>
  A raw measurement value: \<^verbatim>\<open>None\<close>, a number, a text (with the float it parses to,
  if any), a list, or an object \<^verbatim>\<open>float()\<close> rejects.
\<close>

datatype raw = RNone | RNum f64 | RStr "f64 option" | RList "raw list" | RObject

text \<open>\<^verbatim>\<open>float(v)\<close>; \<open>None\<close> when it raises \<^verbatim>\<open>ValueError\<close> or \<^verbatim>\<open>TypeError\<close>.\<close>

fun py_float :: "raw \<Rightarrow> f64 option" where
  "py_float (RNum x) = Some x"
| "py_float (RStr p) = p"
| "py_float _ = None"

definition extract_value :: "raw \<Rightarrow> f64" where
  "extract_value v =
     (case v of
        RList vs \<Rightarrow>
          (case vs of [] \<Rightarrow> Fin 0 | v0 # _ \<Rightarrow> (case py_float v0 of Some x \<Rightarrow> x | None \<Rightarrow> Fin 0))
      | RNone \<Rightarrow> Fin 0
      | _ \<Rightarrow> (case py_float v of Some x \<Rightarrow> x | None \<Rightarrow> Fin 0))"

text \<open>\<^verbatim>\<open>d[k] = v\<close> on a dictionary in insertion order.\<close>

fun dict_set :: "'k \<Rightarrow> 'v \<Rightarrow> ('k \<times> 'v) list \<Rightarrow> ('k \<times> 'v) list" where
  "dict_set k v [] = [(k, v)]"
| "dict_set k v ((k', v') # d) = (if k' = k then (k, v) # d else (k', v') # dict_set k v d)"

text \<open>The \<^verbatim>\<open>row_dict\<close> of one UE (lines 426--434).\<close>

definition row_dict :: "xapp \<Rightarrow> int \<Rightarrow> string \<Rightarrow> int \<Rightarrow> (string \<times> raw) list \<Rightarrow> telemetry" where
  "row_dict self timestamp e2_agent_id ue_id meas_values =
     \<lparr>Timestamp = timestamp, E2AgentID = e2_agent_id, UE_ID = ue_id,
      measurements =
        foldl (\<lambda>d metric.
                 dict_set metric
                   (extract_value (case map_of meas_values metric of None \<Rightarrow> RNone | Some v \<Rightarrow> v)) d)
              [] (metric_names self)\<rparr>"

definition hard_cap :: nat where
  "hard_cap = 1440"

text \<open>
  The callback.  \<open>timestamp\<close> is the clock reading and \<open>ueMeasData\<close> the items of the
  dictionary \<^verbatim>\<open>extract_meas_data\<close> returns under that key, each with its
  \<^verbatim>\<open>measData\<close>.  The result is what the call prints of the verdicts, or the exception
  that leaves it, and the object after the call.
\<close>

definition subscription_callback ::
    "xapp \<Rightarrow> int \<Rightarrow> string \<Rightarrow> (int \<times> (string \<times> raw) list) list
      \<Rightarrow> (error + (int \<times> string) list option) \<times> xapp" where
  "subscription_callback self timestamp e2_agent_id ueMeasData =
     (let self = self\<lparr>data_buffer :=
                   data_buffer self
                   @ map (\<lambda>(ue_id, meas_values). row_dict self timestamp e2_agent_id ue_id meas_values)
                         ueMeasData\<rparr>
      in if buffer_size self \<le> int (length (data_buffer self)) then
           (case transform self (DataFrame (data_buffer self)) of
              Inl e \<Rightarrow> (Inl e, self)
            | Inr unused_features \<Rightarrow>
                (case (if buffer_size self \<le> int (length (data_buffer self)) then
                         (case transform self (DataFrame (data_buffer self)) of
                            Inl e \<Rightarrow> Inl e
                          | Inr features_df \<Rightarrow> predict_cascaded self features_df)
                       else Inr None) of
                   Inl e \<Rightarrow> (Inl e, self)
                 | Inr verdicts \<Rightarrow>
                     (Inr verdicts,
                      if hard_cap \<le> length (data_buffer self) then self\<lparr>data_buffer := []\<rparr>
                      else self)))
         else (Inr None, self))"

subsection \<open>Sample data\<close>

text \<open>The default of \<^verbatim>\<open>--metrics\<close> (line 498), and records to run the functions on.\<close>

definition default_metrics :: "string list" where
  "default_metrics =
     [''RRU.PrbAvailDl'', ''RRU.PrbAvailUl'', ''RRU.PrbUsedDl'', ''RRU.PrbUsedUl'',
      ''RACH.PreambleDedCell'', ''DRB.UEThpDl'', ''DRB.UEThpUl'', ''DRB.RlcPacketDropRateDl'',
      ''DRB.RlcSduTransmittedVolumeDL'', ''DRB.RlcSduTransmittedVolumeUL'', ''CQI'', ''RSRP'',
      ''RSRQ'', ''DRB.RlcSduDelayDl'', ''DRB.RlcDelayUl'']"

definition sample_row :: "int \<Rightarrow> int \<Rightarrow> real \<Rightarrow> telemetry" where
  "sample_row t ue x =
     \<lparr>Timestamp = t, E2AgentID = ''gnbd_001_001_00019b_0'', UE_ID = ue,
      measurements = map (\<lambda>c. (c, Fin x)) default_metrics\<rparr>"

text \<open>The feature table of the frame of one such record, when nothing is reindexed.\<close>

definition sample_table :: "int \<Rightarrow> int \<Rightarrow> real \<Rightarrow> table" where
  "sample_table t ue x =
     \<lparr>tcolumns = rolled_columns,
      trows = [rolled_row (''gnbd_001_001_00019b_0'', ue) (with_new_features [sample_row t ue x]) 0]\<rparr>"

text \<open>A classifier that answers the same class for every row.\<close>

definition constant_estimator :: "int \<Rightarrow> model" where
  "constant_estimator c = Estimator (\<lambda>X. map (\<lambda>x. c) X)"

text \<open>An object whose three artifacts loaded, and one whose first artifact is missing.\<close>

definition loaded_xapp :: "int \<Rightarrow> xapp" where
  "loaded_xapp bsize =
     start (init (Loaded (constant_estimator 1) [''CQI_mean'', ''UE_ID''])
                 (Loaded (constant_estimator 0) [''CQI_mean'', ''UE_ID''])
                 (Loaded (constant_estimator 2) [''CQI_mean'', ''UE_ID'']) bsize)
           default_metrics"

definition unloaded_xapp :: "int \<Rightarrow> xapp" where
  "unloaded_xapp bsize =
     start (init FileNotFoundError
                 (Loaded (constant_estimator 0) [''CQI_mean'', ''UE_ID''])
                 (Loaded (constant_estimator 2) [''CQI_mean'', ''UE_ID'']) bsize)
           default_metrics"

text \<open>
  An object whose stage-2 model of the malicious branch answers class 7, one past the
  seven entries of the malicious vocabulary.
\<close>

definition misfit_xapp :: "int \<Rightarrow> xapp" where
  "misfit_xapp bsize =
     start (init (Loaded (constant_estimator 1) [''CQI_mean'', ''UE_ID''])
                 (Loaded (constant_estimator 0) [''CQI_mean'', ''UE_ID''])
                 (Loaded (constant_estimator 7) [''CQI_mean'', ''UE_ID'']) bsize)
           default_metrics"

text \<open>An object one record short of the hard cap.\<close>

definition full_xapp :: xapp where
  "full_xapp = (loaded_xapp 30)\<lparr>data_buffer := replicate 1439 (sample_row 0 7 0)\<rparr>"


text \<open>
  A record of non-negative finite metrics whose uplink throughput is \<open>2^1023\<close> (a
  double) and whose other metrics are 0.
\<close>

definition steep_row :: telemetry where
  "steep_row =
     \<lparr>Timestamp = 0, E2AgentID = ''gnbd_001_001_00019b_0'', UE_ID = 7,
      measurements = map (\<lambda>c. (c, if c = ''DRB.UEThpUl'' then Fin (2 ^ 1023) else Fin 0)) default_metrics\<rparr>"

section \<open>Properties\<close>

subsection \<open>Counting and the per-UE aggregation\<close>

lemma bump_keys: "fst ` set (bump y acc) = insert y (fst ` set acc)"
proof (induction acc)
  case Nil
  then show ?case by simp
next
  case (Cons kc acc)
  obtain k c where kc: "kc = (k, c)" by (cases kc)
  show ?case using Cons by (auto simp: kc)
qed

lemma bump_distinct: "distinct (map fst acc) \<Longrightarrow> distinct (map fst (bump y acc))"
proof (induction acc)
  case Nil
  then show ?case by simp
next
  case (Cons kc acc)
  obtain k c where kc: "kc = (k, c)" by (cases kc)
  show ?case using Cons bump_keys[of y acc] by (auto simp: kc)
qed

lemma bump_map_of:
  "map_of (bump y acc) x =
     (if x = y then Some (case map_of acc y of None \<Rightarrow> 1 | Some c \<Rightarrow> Suc c) else map_of acc x)"
  by (induction acc) auto

lemma foldl_bump_map_of:
  "cnt (foldl (\<lambda>acc x. bump x acc) acc xs) x = cnt acc x + count_list xs x"
proof (induction xs arbitrary: acc)
  case Nil
  then show ?case by simp
next
  case (Cons a xs)
  have "cnt (bump a acc) x = cnt acc x + (if x = a then 1 else 0)"
    by (auto simp: cnt_def bump_map_of split: option.splits)
  with Cons.IH[of "bump a acc"] show ?case by auto
qed

lemma foldl_bump_distinct:
  "distinct (map fst acc) \<Longrightarrow> distinct (map fst (foldl (\<lambda>acc x. bump x acc) acc xs))"
  by (induction xs arbitrary: acc) (auto simp: bump_distinct)

lemma foldl_bump_keys:
  "fst ` set (foldl (\<lambda>acc x. bump x acc) acc xs) = fst ` set acc \<union> set xs"
  by (induction xs arbitrary: acc) (auto simp: bump_keys)

lemma Counter_entry:
  assumes "(k, c) \<in> set (Counter xs)"
  shows "k \<in> set xs \<and> c = count_list xs k"
proof -
  have d: "distinct (map fst (Counter xs))"
    unfolding Counter_def by (rule foldl_bump_distinct) simp
  have "map_of (Counter xs) k = Some c" using assms d by simp
  moreover have "cnt (Counter xs) k = count_list xs k"
    unfolding Counter_def using foldl_bump_map_of[of "[]" xs k] by (simp add: cnt_def)
  moreover have "k \<in> fst ` set (Counter xs)" using assms by force
  ultimately show ?thesis unfolding Counter_def by (simp add: cnt_def foldl_bump_keys)
qed

lemma Counter_has:
  assumes "k \<in> set xs"
  shows "(k, count_list xs k) \<in> set (Counter xs)"
proof -
  have "k \<in> fst ` set (Counter xs)" using assms unfolding Counter_def by (simp add: foldl_bump_keys)
  then obtain c where "(k, c) \<in> set (Counter xs)" by force
  with Counter_entry[OF this] show ?thesis by simp
qed

lemma pick_mem:
  "foldl (\<lambda>best e. if snd best < snd e then e else best) (b :: 'a \<times> nat) rest \<in> set (b # rest)"
proof (induction rest arbitrary: b)
  case Nil
  then show ?case by simp
next
  case (Cons a rest)
  show ?case using Cons[of "if snd b < snd a then a else b"] by (auto split: if_splits)
qed

lemma pick_ge_init:
  "snd b \<le> snd (foldl (\<lambda>best e. if snd best < snd e then e else best) (b :: 'a \<times> nat) rest)"
proof (induction rest arbitrary: b)
  case Nil
  then show ?case by simp
next
  case (Cons a rest)
  show ?case using Cons[of "if snd b < snd a then a else b"] by (auto split: if_splits)
qed

lemma pick_ge:
  "e \<in> set rest \<Longrightarrow>
   snd e \<le> snd (foldl (\<lambda>best e. if snd best < snd e then e else best) (b :: 'a \<times> nat) rest)"
proof (induction rest arbitrary: b)
  case Nil
  then show ?case by simp
next
  case (Cons a rest)
  show ?case
  proof (cases "e = a")
    case True
    then show ?thesis using pick_ge_init[of "if snd b < snd a then a else b" rest]
      by (auto split: if_splits)
  next
    case False
    then show ?thesis using Cons.prems Cons.IH[of "if snd b < snd a then a else b"] by auto
  qed
qed

lemma max_by_count_mem: "max_by_count kc rest \<in> set (kc # rest)"
  unfolding max_by_count_def by (rule pick_mem)

lemma max_by_count_ge: "e \<in> set (kc # rest) \<Longrightarrow> snd e \<le> snd (max_by_count kc rest)"
  unfolding max_by_count_def using pick_ge_init[of kc rest] pick_ge[of e rest kc] by auto

lemma most_common_key_ok:
  assumes "xs \<noteq> []"
  shows "\<exists>k. most_common_key xs = Inr k \<and> k \<in> set xs \<and> (\<forall>y. count_list xs y \<le> count_list xs k)"
proof -
  from assms obtain x where x: "x \<in> set xs" by (cases xs) auto
  from Counter_has[OF x] obtain kc rest where cr: "Counter xs = kc # rest"
    by (cases "Counter xs") auto
  define m where "m = max_by_count kc rest"
  have mk: "most_common_key xs = Inr (fst m)"
    by (simp add: most_common_key_def most_common1_def cr m_def)
  have mem: "m \<in> set (Counter xs)" using max_by_count_mem[of kc rest] by (simp add: cr m_def)
  then have e: "fst m \<in> set xs \<and> snd m = count_list xs (fst m)"
    using Counter_entry[of "fst m" "snd m" xs] by simp
  have "count_list xs y \<le> count_list xs (fst m)" for y
  proof (cases "y \<in> set xs")
    case True
    from Counter_has[OF this] have "(y, count_list xs y) \<in> set (kc # rest)" by (simp add: cr)
    from max_by_count_ge[OF this] show ?thesis using e by (simp add: m_def)
  next
    case False
    then show ?thesis by (simp add: count_list_0_iff)
  qed
  with mk e show ?thesis by blast
qed


lemma mapE_all: "(\<And>x. x \<in> set xs \<Longrightarrow> f x = Inr (g x)) \<Longrightarrow> mapE f xs = Inr (map g xs)"
  by (induction xs) auto

lemma subtype_of_Malicious: "prefix ''Malicious-'' p \<Longrightarrow> subtype_of p = Inr (drop 10 p)"
  by (auto simp: prefix_def subtype_of_def split_dash1_def)

lemma subtype_of_Benign: "prefix ''Benign-'' p \<Longrightarrow> subtype_of p = Inr (drop 7 p)"
  by (auto simp: prefix_def subtype_of_def split_dash1_def)

lemma ue_status_malicious:
  assumes "filter (prefix ''Malicious-'') ps \<noteq> []"
  shows "\<exists>chosen. ue_status ps = Inr (''Malicious-'' @ chosen) \<and>
           chosen \<in> set (map (drop 10) (filter (prefix ''Malicious-'') ps)) \<and>
           (\<forall>s. count_list (map (drop 10) (filter (prefix ''Malicious-'') ps)) s
                 \<le> count_list (map (drop 10) (filter (prefix ''Malicious-'') ps)) chosen)"
proof -
  let ?m = "filter (prefix ''Malicious-'') ps"
  have m: "mapE subtype_of ?m = Inr (map (drop 10) ?m)"
    by (rule mapE_all) (simp add: subtype_of_Malicious)
  from assms have "map (drop 10) ?m \<noteq> []" by simp
  from most_common_key_ok[OF this] obtain k where
    k: "most_common_key (map (drop 10) ?m) = Inr k" "k \<in> set (map (drop 10) ?m)"
       "\<forall>y. count_list (map (drop 10) ?m) y \<le> count_list (map (drop 10) ?m) k"
    by blast
  have "ue_status ps = Inr (''Malicious-'' @ k)"
    unfolding ue_status_def Let_def using assms m k(1) by simp
  with k show ?thesis by blast
qed

lemma ue_status_benign:
  assumes "filter (prefix ''Malicious-'') ps = []" and "filter (prefix ''Benign-'') ps \<noteq> []"
  shows "\<exists>chosen. ue_status ps = Inr (''Benign-'' @ chosen) \<and>
           chosen \<in> set (map (drop 7) (filter (prefix ''Benign-'') ps)) \<and>
           (\<forall>s. count_list (map (drop 7) (filter (prefix ''Benign-'') ps)) s
                 \<le> count_list (map (drop 7) (filter (prefix ''Benign-'') ps)) chosen)"
proof -
  let ?m = "filter (prefix ''Benign-'') ps"
  have m: "mapE subtype_of ?m = Inr (map (drop 7) ?m)"
    by (rule mapE_all) (simp add: subtype_of_Benign)
  from assms have "map (drop 7) ?m \<noteq> []" by simp
  from most_common_key_ok[OF this] obtain k where
    k: "most_common_key (map (drop 7) ?m) = Inr k" "k \<in> set (map (drop 7) ?m)"
       "\<forall>y. count_list (map (drop 7) ?m) y \<le> count_list (map (drop 7) ?m) k"
    by blast
  have "ue_status ps = Inr (''Benign-'' @ k)"
    unfolding ue_status_def Let_def using assms m k(1) by simp
  with k show ?thesis by blast
qed

lemma ue_status_unknown:
  "filter (prefix ''Malicious-'') ps = [] \<Longrightarrow> filter (prefix ''Benign-'') ps = [] \<Longrightarrow>
   ue_status ps = Inr ''Unknown-NA''"
  by (simp add: ue_status_def)

lemma ue_status_total: "\<exists>s. ue_status ps = Inr s"
  using ue_status_malicious[of ps] ue_status_benign[of ps] ue_status_unknown[of ps] by blast

lemma set_np_unique: "set (np_unique xs) = set xs"
  by (simp add: np_unique_def)

lemma map_of_tabulate: "k \<in> set ks \<Longrightarrow> map_of (map (\<lambda>k. (k, h k)) ks) k = Some (h k)"
  by (induction ks) auto

lemma aggregate_eq:
  "aggregate rows =
     Inr (map (\<lambda>ue. (ue, projr (ue_status (ue_preds_of rows ue)))) (np_unique (map fst rows)))"
  unfolding aggregate_def
proof (rule mapE_all)
  fix ue
  from ue_status_total[of "ue_preds_of rows ue"] obtain s where "ue_status (ue_preds_of rows ue) = Inr s" ..
  then show "(case ue_status (ue_preds_of rows ue) of Inl e \<Rightarrow> Inl e | Inr status \<Rightarrow> Inr (ue, status))
      = Inr (ue, projr (ue_status (ue_preds_of rows ue)))" by simp
qed

text \<open>
  Claim C3.  For every sequence of per-row predictions and every UE that has a row in it,
  the aggregation returns (it never raises) and the verdict of the UE is: when some row of
  the UE is labelled \<^verbatim>\<open>Malicious-\<close>, the label \<^verbatim>\<open>Malicious-\<close> followed by a subtype
  that occurs among the malicious rows of that UE and that no other subtype of those rows
  outnumbers; otherwise, when some row is labelled \<^verbatim>\<open>Benign-\<close>, the same with the
  benign rows.  A UE with rows of both kinds is therefore Malicious, never Benign.
\<close>

theorem aggregate_malicious_dominates:
  fixes rows :: "(int \<times> string) list"
  defines "preds ue \<equiv> map snd (filter (\<lambda>r. fst r = ue) rows)"
  defines "mal ue \<equiv> map (drop 10) (filter (prefix ''Malicious-'') (preds ue))"
  defines "ben ue \<equiv> map (drop 7) (filter (prefix ''Benign-'') (preds ue))"
  assumes "ue \<in> fst ` set rows"
  shows "\<exists>verdicts. aggregate rows = Inr verdicts \<and>
           (mal ue \<noteq> [] \<longrightarrow>
              (\<exists>chosen. map_of verdicts ue = Some (''Malicious-'' @ chosen) \<and>
                        chosen \<in> set (mal ue) \<and>
                        (\<forall>s. count_list (mal ue) s \<le> count_list (mal ue) chosen))) \<and>
           (mal ue = [] \<and> ben ue \<noteq> [] \<longrightarrow>
              (\<exists>chosen. map_of verdicts ue = Some (''Benign-'' @ chosen) \<and>
                        chosen \<in> set (ben ue) \<and>
                        (\<forall>s. count_list (ben ue) s \<le> count_list (ben ue) chosen))) \<and>
           (mal ue \<noteq> [] \<and> ben ue \<noteq> [] \<longrightarrow>
              (\<forall>v. map_of verdicts ue = Some v \<longrightarrow> prefix ''Malicious-'' v \<and> \<not> prefix ''Benign-'' v))"
proof -
  let ?v = "map (\<lambda>ue. (ue, projr (ue_status (ue_preds_of rows ue)))) (np_unique (map fst rows))"
  have look: "map_of ?v ue = Some (projr (ue_status (ue_preds_of rows ue)))"
    by (rule map_of_tabulate) (use assms(4) in \<open>simp add: set_np_unique\<close>)
  have p: "ue_preds_of rows ue = preds ue" by (simp add: ue_preds_of_def preds_def)
  have 1: "mal ue \<noteq> [] \<longrightarrow>
              (\<exists>chosen. map_of ?v ue = Some (''Malicious-'' @ chosen) \<and>
                        chosen \<in> set (mal ue) \<and>
                        (\<forall>s. count_list (mal ue) s \<le> count_list (mal ue) chosen))"
  proof
    assume "mal ue \<noteq> []"
    then have "filter (prefix ''Malicious-'') (preds ue) \<noteq> []" by (simp add: mal_def)
    from ue_status_malicious[OF this] show "\<exists>chosen. map_of ?v ue = Some (''Malicious-'' @ chosen) \<and>
                        chosen \<in> set (mal ue) \<and>
                        (\<forall>s. count_list (mal ue) s \<le> count_list (mal ue) chosen)"
      unfolding look p mal_def by force
  qed
  have 2: "mal ue = [] \<and> ben ue \<noteq> [] \<longrightarrow>
              (\<exists>chosen. map_of ?v ue = Some (''Benign-'' @ chosen) \<and>
                        chosen \<in> set (ben ue) \<and>
                        (\<forall>s. count_list (ben ue) s \<le> count_list (ben ue) chosen))"
  proof
    assume "mal ue = [] \<and> ben ue \<noteq> []"
    then have "filter (prefix ''Malicious-'') (preds ue) = []" "filter (prefix ''Benign-'') (preds ue) \<noteq> []"
      by (simp_all add: mal_def ben_def)
    from ue_status_benign[OF this] show "\<exists>chosen. map_of ?v ue = Some (''Benign-'' @ chosen) \<and>
                        chosen \<in> set (ben ue) \<and>
                        (\<forall>s. count_list (ben ue) s \<le> count_list (ben ue) chosen)"
      unfolding look p ben_def by force
  qed
  have 3: "mal ue \<noteq> [] \<and> ben ue \<noteq> [] \<longrightarrow>
              (\<forall>v. map_of ?v ue = Some v \<longrightarrow> prefix ''Malicious-'' v \<and> \<not> prefix ''Benign-'' v)"
    using 1 by auto
  show ?thesis using aggregate_eq[of rows] 1 2 3 by blast
qed

theorem aggregate_malicious_dominates_witness:
  "(7::int) \<in> fst ` set [(7, ''Benign-embb''), (3, ''Benign-voip''), (7, ''Malicious-udp_flood'')] \<and>
   aggregate [(7, ''Benign-embb''), (3, ''Benign-voip''), (7, ''Malicious-udp_flood'')]
     = Inr [(3, ''Benign-voip''), (7, ''Malicious-udp_flood'')]"
  using aggregate_malicious_dominates[of 7 "[(7, ''Benign-embb''), (3, ''Benign-voip''), (7, ''Malicious-udp_flood'')]"]
  by (simp add: aggregate_def np_unique_def ue_preds_of_def ue_status_def subtype_of_def split_dash1_def
      most_common_key_def most_common1_def Counter_def max_by_count_def)

subsection \<open>The feature engineering as a function of the frame\<close>

lemma to_numeric_columns_eq:
  "to_numeric_columns cs h df =
     (if set cs \<subseteq> set (fcolumns (h ! df)) then (None, h) else (Some KeyError, h))"
  by (induction cs) auto

lemma prepare_eq:
  "prepare self h a =
     (if set [''Timestamp'', ''E2AgentID'', ''UE_ID''] \<subseteq> set (fcolumns (h ! a)) then
        (if set (metric_names self) \<subseteq> set (fcolumns (h ! a)) then
           (Inr (Suc (length h)),
            h @ [h ! a, fillna0 ((h ! a)\<lparr>frows := sort_values (frows (h ! a))\<rparr>)])
         else (Inl KeyError, h @ [h ! a, (h ! a)\<lparr>frows := sort_values (frows (h ! a))\<rparr>]))
      else (Inl KeyError, h @ [h ! a]))"
  by (auto simp: prepare_def new_object_def to_numeric_columns_eq nth_append Let_def list_update_append)

lemma fcolumns_fillna0 [simp]: "fcolumns (fillna0 f) = fcolumns f"
  by (simp add: fillna0_def)

lemma transform_eq:
  "transform self f =
     (if set [''Timestamp'', ''E2AgentID'', ''UE_ID''] \<subseteq> set (fcolumns f)
         \<and> set (metric_names self) \<subseteq> set (fcolumns f)
      then engineer self (fillna0 (f\<lparr>frows := sort_values (frows f)\<rparr>))
      else Inl KeyError)"
  by (simp add: transform_def feature_engineer_network_data_def prepare_eq nth_append)

lemma feature_engineer_fst:
  "fst (feature_engineer_network_data self h a) = transform self (h ! a)"
  by (simp add: transform_def feature_engineer_network_data_def prepare_eq nth_append)

lemma feature_engineer_snd:
  "\<exists>new. snd (feature_engineer_network_data self h a) = h @ new"
  by (simp add: feature_engineer_network_data_def prepare_eq)

text \<open>
  Claim C9.  The feature engineering is deterministic and leaves its input alone: a call
  changes no object that was in the store before it (the input frame among them; it only
  adds the copies it works on), and a second call on the same input, in the store the
  first call left, returns the same result.
\<close>

theorem feature_engineer_deterministic_no_mutation:
  assumes "cleaned_dataset < length h"
    and "feature_engineer_network_data self h cleaned_dataset = (features, h')"
  shows "take (length h) h' = h
       \<and> h' ! cleaned_dataset = h ! cleaned_dataset
       \<and> fst (feature_engineer_network_data self h' cleaned_dataset) = features"
proof -
  from feature_engineer_snd[of self h cleaned_dataset] assms(2)
  obtain new where h': "h' = h @ new" by auto
  have same: "h' ! cleaned_dataset = h ! cleaned_dataset"
    using assms(1) by (simp add: h' nth_append)
  have "fst (feature_engineer_network_data self h' cleaned_dataset) = transform self (h ! cleaned_dataset)"
    by (simp add: feature_engineer_fst same)
  also have "\<dots> = features"
    using feature_engineer_fst[of self h cleaned_dataset] assms(2) by simp
  finally show ?thesis using same by (simp add: h')
qed

lemma length_group_diff [simp]: "length (group_diff seen kxs) = length kxs"
  by (induction seen kxs rule: group_diff.induct) auto

lemma length_jitter [simp]: "length (jitter c rs) = length rs"
  by (simp add: jitter_def)

lemma length_with_new_features [simp]: "length (with_new_features rs) = length rs"
  by (simp add: with_new_features_def)

lemma sort_key_Nil [simp]: "sort_key k xs = [] \<longleftrightarrow> xs = []"
  by (metis length_0_conv length_sort)

lemma with_new_features_Nil [simp]: "with_new_features rs = [] \<longleftrightarrow> rs = []"
  by (metis length_0_conv length_with_new_features)

lemma groupby_Nil [simp]: "groupby rs = [] \<longleftrightarrow> rs = []"
proof -
  have "remdups (map group_key rs) = [] \<longleftrightarrow> rs = []"
    by (metis map_is_Nil_conv set_empty set_remdups)
  then show ?thesis by (simp add: groupby_def)
qed

lemma groupby_nonempty: "(k, g) \<in> set (groupby rs) \<Longrightarrow> g \<noteq> []"
  by (auto simp: groupby_def filter_empty_conv)

lemma rolled_row_keys: "map fst (rolled_row key g i) = rolled_columns"
  by (simp add: rolled_row_def rolled_columns_def map_concat Let_def comp_def)

lemma rolled_data_keys: "r \<in> set (rolled_data key g) \<Longrightarrow> map fst r = rolled_columns"
  by (auto simp: rolled_data_def rolled_row_keys)

lemma rolled_data_Nil [simp]: "rolled_data key g = [] \<longleftrightarrow> g = []"
  by (simp add: rolled_data_def)

lemma final_rows_keys: "r \<in> set (final_rows f) \<Longrightarrow> map fst r = rolled_columns"
  by (auto simp: final_rows_def rolled_data_keys)

lemma frows_fillna0_Nil [simp]: "frows (fillna0 f) = [] \<longleftrightarrow> frows f = []"
  by (simp add: fillna0_def)

lemma sort_values_Nil [simp]: "sort_values rs = [] \<longleftrightarrow> rs = []"
  by (simp add: sort_values_def)

lemma final_rows_Nil [simp]: "final_rows f = [] \<longleftrightarrow> frows f = []"
proof
  assume "frows f = []"
  then show "final_rows f = []" by (simp add: final_rows_def fillna0_def sort_values_def groupby_def with_new_features_def)
next
  assume e: "final_rows f = []"
  show "frows f = []"
  proof (rule ccontr)
    assume "frows f \<noteq> []"
    then have "groupby (with_new_features (frows (fillna0 (f\<lparr>frows := sort_values (frows f)\<rparr>)))) \<noteq> []"
      (is "?G \<noteq> []")
      by simp
    then obtain k g rest where G: "?G = (k, g) # rest" by (cases ?G) auto
    then have "(k, g) \<in> set ?G" by simp
    from groupby_nonempty[OF this] have "rolled_data k g \<noteq> []" by simp
    with e show False by (simp add: final_rows_def G)
  qed
qed

lemma transform_result:
  "transform self f =
     (if set [''Timestamp'', ''E2AgentID'', ''UE_ID''] \<subseteq> set (fcolumns f)
         \<and> set (metric_names self) \<subseteq> set (fcolumns f)
         \<and> set required_columns \<subseteq> set (fcolumns f)
      then (if frows f = [] then Inr \<lparr>tcolumns = [], trows = []\<rparr>
            else Inr (reindex (selected_features self) (F (Fin 0))
                        \<lparr>tcolumns = rolled_columns, trows = final_rows f\<rparr>))
      else Inl KeyError)"
proof -
  have "map (\<lambda>(key, grp). rolled_data key grp)
          (groupby (with_new_features (frows (fillna0 (f\<lparr>frows := sort_values (frows f)\<rparr>))))) = []
        \<longleftrightarrow> frows f = []"
    by simp
  then show ?thesis
    by (simp add: transform_eq engineer_def final_rows_def Let_def)
qed

subsection \<open>The feature engineering on sample frames\<close>

lemma keys_union_single [simp]: "distinct ks \<Longrightarrow> keys_union [ks] = ks"
proof -
  have "distinct (acc @ ks) \<Longrightarrow> foldl (\<lambda>acc k. if k \<in> set acc then acc else acc @ [k]) acc ks = acc @ ks" for acc
    by (induction ks arbitrary: acc) auto
  from this[of "[]"] show "distinct ks \<Longrightarrow> keys_union [ks] = ks" by (simp add: keys_union_def)
qed

lemma fcolumns_sample [simp]:
  "fcolumns (DataFrame [sample_row t ue x]) = id_columns @ default_metrics"
  by (simp add: DataFrame_def dict_keys_def sample_row_def comp_def)
     (simp add: id_columns_def default_metrics_def)

lemma frows_sample [simp]:
  "frows (DataFrame [sample_row t ue x]) = [sample_row t ue x]"
  apply (simp add: DataFrame_def dict_keys_def sample_row_def comp_def)
  apply (simp add: id_columns_def default_metrics_def col_def)
  done

lemma columns_ok:
  "set [''Timestamp'', ''E2AgentID'', ''UE_ID''] \<subseteq> set (id_columns @ default_metrics)
   \<and> set default_metrics \<subseteq> set (id_columns @ default_metrics)
   \<and> set required_columns \<subseteq> set (id_columns @ default_metrics)"
  by (simp add: id_columns_def default_metrics_def required_columns_def)

lemma loaded_fields [simp]:
  "metric_names (loaded_xapp n) = default_metrics"
  "selected_features (loaded_xapp n) = None"
  "s1_features (loaded_xapp n) = Some [''CQI_mean'', ''UE_ID'']"
  "s1_model (loaded_xapp n) = Some (constant_estimator 1)"
  "s2_ben_model (loaded_xapp n) = Some (constant_estimator 0)"
  "s2_mal_model (loaded_xapp n) = Some (constant_estimator 2)"
  "buffer_size (loaded_xapp n) = n"
  "data_buffer (loaded_xapp n) = []"
  by (simp_all add: loaded_xapp_def start_def init_def)

lemma loaded_vocabulary [simp]:
  "py_index (le_malicious (loaded_xapp n)) 2 = Inr ''udp_flood''"
  by (simp add: loaded_xapp_def start_def init_def py_index_def)

lemma unloaded_fields [simp]:
  "metric_names (unloaded_xapp n) = default_metrics"
  "selected_features (unloaded_xapp n) = None"
  "s1_model (unloaded_xapp n) = None"
  "buffer_size (unloaded_xapp n) = n"
  "data_buffer (unloaded_xapp n) = []"
  by (simp_all add: unloaded_xapp_def start_def init_def)

lemma final_rows_sample:
  "final_rows (DataFrame [sample_row t ue x]) = [rolled_row (''gnbd_001_001_00019b_0'', ue) (with_new_features [sample_row t ue x]) 0]"
  apply (simp add: final_rows_def)
  apply (simp add: fillna0_def sort_values_def sample_row_def comp_def)
  apply (simp add: groupby_def with_new_features_def group_key_def rolled_data_def jitter_def)
  done


lemma transform_sample:
  assumes "metric_names self = default_metrics" and "selected_features self = None"
  shows "transform self (DataFrame [sample_row t ue x]) = Inr (sample_table t ue x)"
  using columns_ok assms
  by (simp add: transform_result final_rows_sample reindex_def sample_table_def)

theorem feature_engineer_deterministic_no_mutation_witness:
  "(0::nat) < length [DataFrame [sample_row 0 7 1]]
   \<and> (\<exists>t. fst (feature_engineer_network_data (loaded_xapp 1) [DataFrame [sample_row 0 7 1]] 0) = Inr t)
   \<and> take 1 (snd (feature_engineer_network_data (loaded_xapp 1) [DataFrame [sample_row 0 7 1]] 0))
       = [DataFrame [sample_row 0 7 1]]
   \<and> fst (feature_engineer_network_data (loaded_xapp 1)
             (snd (feature_engineer_network_data (loaded_xapp 1) [DataFrame [sample_row 0 7 1]] 0)) 0)
       = fst (feature_engineer_network_data (loaded_xapp 1) [DataFrame [sample_row 0 7 1]] 0)"
proof -
  let ?h = "[DataFrame [sample_row 0 7 1]]"
  let ?res = "feature_engineer_network_data (loaded_xapp 1) ?h 0"
  have 1: "(0::nat) < length ?h" by simp
  have 2: "?res = (fst ?res, snd ?res)" by simp
  from feature_engineer_deterministic_no_mutation[OF 1 2]
  have "take 1 (snd ?res) = ?h
      \<and> fst (feature_engineer_network_data (loaded_xapp 1) (snd ?res) 0) = fst ?res"
    by simp
  moreover have "\<exists>t. fst ?res = Inr t"
    by (simp add: feature_engineer_fst transform_sample)
  ultimately show ?thesis using 1 by blast
qed

text \<open>
  Claim C8.  The frame of an empty sequence of records, \<^verbatim>\<open>pd.DataFrame([])\<close>, has no
  column, and the feature engineering raises a \<^verbatim>\<open>KeyError\<close> on it (line 94 reads
  \<^verbatim>\<open>df['Timestamp']\<close>) instead of returning an empty table.  The guard of line 150
  is reached only by a frame that has the columns and no row (\<open>transform_no_rows\<close>).
\<close>

theorem transform_no_columns_raises:
  "transform self (DataFrame []) = Inl KeyError"
  by (simp add: transform_result DataFrame_def keys_union_def)

lemma transform_no_rows:
  assumes "set [''Timestamp'', ''E2AgentID'', ''UE_ID''] \<subseteq> set cols"
    and "set (metric_names self) \<subseteq> set cols" and "set required_columns \<subseteq> set cols"
  shows "transform self \<lparr>fcolumns = cols, frows = []\<rparr> = Inr \<lparr>tcolumns = [], trows = []\<rparr>"
  using assms by (simp add: transform_result)

lemma rolled_columns_length: "length rolled_columns = 56"
  by (simp add: rolled_columns_def all_features_to_roll_def 
      rolling_features_to_calculate_def flag_features_def)

text \<open>
  Claim C1.  On an object whose three artifacts loaded, with the features
  \<^verbatim>\<open>['CQI_mean', 'UE_ID']\<close> stored beside the stage-1 model,
  \<^verbatim>\<open>selected_features\<close> is still \<^verbatim>\<open>None\<close>: the table returned for one record
  has the 56 computed columns, not the two columns the classifier was fit on.  Had the
  attribute been assigned, the table would have exactly its columns
  (\<open>transform_aligned_if_selected\<close>).
\<close>

theorem transform_ignores_loaded_features:
  "s1_features (loaded_xapp 1) = Some [''CQI_mean'', ''UE_ID'']
   \<and> selected_features (loaded_xapp 1) = None
   \<and> (\<exists>t. transform (loaded_xapp 1) (DataFrame [sample_row 0 7 1]) = Inr t
          \<and> tcolumns t = rolled_columns
          \<and> map (map fst) (trows t) = [rolled_columns])
   \<and> length rolled_columns = 56
   \<and> rolled_columns \<noteq> [''CQI_mean'', ''UE_ID'']"
proof -
  have "rolled_columns \<noteq> [''CQI_mean'', ''UE_ID'']"
  proof
    assume e: "rolled_columns = [''CQI_mean'', ''UE_ID'']"
    have "length rolled_columns = length [''CQI_mean'', ''UE_ID'']"
      by (subst e) (rule refl)
    then show False using rolled_columns_length by simp
  qed
  then show ?thesis
    using rolled_columns_length by (simp add: transform_sample sample_table_def rolled_row_keys)
qed

lemma transform_aligned_if_selected:
  assumes "selected_features self = Some cs" and "transform self f = Inr t" and "frows f \<noteq> []"
  shows "tcolumns t = cs \<and> (\<forall>r \<in> set (trows t). map fst r = cs)"
  using assms by (auto simp: transform_result reindex_def comp_def split: if_splits)

subsection \<open>The cascade\<close>

lemma mapE_Inr_iff: "mapE f xs = Inr ys \<longleftrightarrow> list_all2 (\<lambda>x y. f x = Inr y) xs ys"
proof (induction xs arbitrary: ys)
  case Nil
  then show ?case by auto
next
  case (Cons x xs)
  show ?case
  proof (cases "f x")
    case (Inl e)
    then show ?thesis by (auto simp: list_all2_Cons1)
  next
    case (Inr y)
    then show ?thesis using Cons.IH
      by (cases "mapE f xs") (auto simp: list_all2_Cons1)
  qed
qed

lemma mapE_total: "(\<And>x. x \<in> set xs \<Longrightarrow> \<exists>y. f x = Inr y) \<Longrightarrow> \<exists>ys. mapE f xs = Inr ys"
proof (induction xs)
  case Nil
  then show ?case by simp
next
  case (Cons x xs)
  then obtain y ys where "f x = Inr y" "mapE f xs = Inr ys" by (metis list.set_intros)
  then show ?case by simp
qed

lemma map_of_rolled_row_UE_ID: "map_of (rolled_row key g i) ''UE_ID'' = Some (I (snd key))"
  by (simp add: rolled_row_def all_features_to_roll_def rolling_features_to_calculate_def
      flag_features_def Let_def)

lemma final_rows_UE_ID:
  assumes "r \<in> set (final_rows f)"
  shows "\<exists>n. map_of r ''UE_ID'' = Some (I n)"
  using assms by (auto simp: final_rows_def rolled_data_def map_of_rolled_row_UE_ID)

lemma UE_ID_in_rolled_columns: "''UE_ID'' \<in> set rolled_columns"
  by (simp add: rolled_columns_def)

lemma ue_id_values_total:
  assumes "''UE_ID'' \<in> set (tcolumns t)"
    and "\<And>r. r \<in> set (trows t) \<Longrightarrow> \<exists>n. map_of r ''UE_ID'' = Some (I n)"
  shows "\<exists>ue_ids. ue_id_values t = Inr ue_ids"
proof -
  have "\<exists>ys. mapE (\<lambda>r. case map_of r ''UE_ID'' of Some (I n) \<Rightarrow> Inr n | _ \<Rightarrow> Inl TypeError) (trows t) = Inr ys"
  proof (rule mapE_total)
    fix r assume "r \<in> set (trows t)"
    from assms(2)[OF this] obtain n where "map_of r ''UE_ID'' = Some (I n)" ..
    then show "\<exists>y. (case map_of r ''UE_ID'' of Some (I n) \<Rightarrow> Inr n | _ \<Rightarrow> Inl TypeError) = Inr y"
      by simp
  qed
  then show ?thesis using assms(1) by (simp add: ue_id_values_def)
qed

lemma ue_id_values_length: "ue_id_values t = Inr ue_ids \<Longrightarrow> length ue_ids = length (trows t)"
  by (auto simp: ue_id_values_def mapE_Inr_iff split: if_splits dest: list_all2_lengthD)

lemma length_model_input:
  "length (model_input self t) = length (trows t)"
  by (simp add: model_input_def drop_columns_def reindex_def Let_def split: option.splits list.splits)

lemma mapE_Inr_mem: "mapE f xs = Inr ys \<Longrightarrow> x \<in> set xs \<Longrightarrow> \<exists>y \<in> set ys. f x = Inr y"
  by (induction xs arbitrary: ys) (auto split: sum.splits)

lemma mapE_Inr_mem2: "mapE f xs = Inr ys \<Longrightarrow> y \<in> set ys \<Longrightarrow> \<exists>x \<in> set xs. f x = Inr y"
  by (induction xs arbitrary: ys) (auto split: sum.splits)

lemma mapE_Inr_length: "mapE f xs = Inr ys \<Longrightarrow> length ys = length xs"
  by (induction xs arbitrary: ys) (auto split: sum.splits)

lemma per_ue_stage1_length:
  assumes "per_ue_stage1 bp ue_ids = Inr s"
  shows "\<exists>ps. bp = Array1 ps \<and> length ue_ids \<le> length ps"
proof (cases bp)
  case (Array0 x)
  with assms show ?thesis by (simp add: per_ue_stage1_def)
next
  case (Array1 ps)
  define rd where "rd = (\<lambda>i. if i < length ps then Inr (ps ! i) else (Inl IndexError :: error + int))"
  define body where "body = (\<lambda>ue. case mapE rd (filter (\<lambda>i. ue_ids ! i = ue) [0..<length ue_ids]) of
                    Inl e \<Rightarrow> Inl e
                  | Inr ue_preds \<Rightarrow>
                      (case most_common_key ue_preds of
                         Inl e \<Rightarrow> Inl e
                       | Inr most_common \<Rightarrow>
                           Inr (ue, if most_common \<noteq> 0 then ''Malicious'' else ''Benign'')))"
  from assms Array1 have m: "mapE body (np_unique ue_ids) = Inr s"
    by (simp add: per_ue_stage1_def body_def rd_def)
  have "i < length ps" if i: "i < length ue_ids" for i
  proof -
    have "ue_ids ! i \<in> set (np_unique ue_ids)" using i by (simp add: np_unique_def)
    from mapE_Inr_mem[OF m this] obtain y where "body (ue_ids ! i) = Inr y" by blast
    then obtain ue_preds where
      u: "mapE rd (filter (\<lambda>j. ue_ids ! j = ue_ids ! i) [0..<length ue_ids]) = Inr ue_preds"
      by (auto simp: body_def split: sum.splits)
    have "i \<in> set (filter (\<lambda>j. ue_ids ! j = ue_ids ! i) [0..<length ue_ids])" using i by simp
    from mapE_Inr_mem[OF u this] obtain z where "rd i = Inr z" by blast
    then show ?thesis by (simp add: rd_def split: if_splits)
  qed
  then have all: "\<And>i. i < length ue_ids \<Longrightarrow> i < length ps" .
  have "length ue_ids \<le> length ps"
  proof (rule ccontr)
    assume "\<not> length ue_ids \<le> length ps"
    then have "length ps < length ue_ids" by simp
    from all[OF this] show False by simp
  qed
  with Array1 show ?thesis by simp
qed

lemma py_index_mem: "py_index xs i = Inr x \<Longrightarrow> x \<in> set xs"
proof -
  assume a: "py_index xs i = Inr x"
  show ?thesis
  proof (cases "0 \<le> i \<and> i < int (length xs)")
    case True
    with a have "x = xs ! nat i" by (simp add: py_index_def)
    moreover from True have "nat i < length xs" by (simp add: nat_less_iff)
    ultimately show ?thesis by simp
  next
    case False
    with a have c: "i < 0 \<and> - int (length xs) \<le> i" and x: "x = xs ! nat (int (length xs) + i)"
      by (auto simp: py_index_def split: if_splits)
    from c have "nat (int (length xs) + i) < length xs" by (simp add: nat_less_iff)
    with x show ?thesis by simp
  qed
qed

lemma cascade_prediction_label:
  assumes "cascade_prediction self x pred = Inr l"
  shows "(pred = 0 \<and> (\<exists>s \<in> set (le_benign self). l = ''Benign-'' @ s))
       \<or> (pred \<noteq> 0 \<and> (\<exists>s \<in> set (le_malicious self). l = ''Malicious-'' @ s))"
proof (cases "pred = 0")
  case True
  show ?thesis
  proof (cases "stage2 (s2_ben_model self) x")
    case (Inl e)
    with assms True show ?thesis by (simp add: cascade_prediction_def)
  next
    case enc: (Inr enc)
    show ?thesis
    proof (cases "py_index (le_benign self) enc")
      case (Inl e)
      with assms True enc show ?thesis by (simp add: cascade_prediction_def)
    next
      case (Inr lab)
      with assms True enc have "l = ''Benign-'' @ lab" by (simp add: cascade_prediction_def)
      with py_index_mem[OF Inr] True show ?thesis by blast
    qed
  qed
next
  case False
  show ?thesis
  proof (cases "stage2 (s2_mal_model self) x")
    case (Inl e)
    with assms False show ?thesis by (simp add: cascade_prediction_def)
  next
    case enc: (Inr enc)
    show ?thesis
    proof (cases "py_index (le_malicious self) enc")
      case (Inl e)
      with assms False enc show ?thesis by (simp add: cascade_prediction_def)
    next
      case (Inr lab)
      with assms False enc have "l = ''Malicious-'' @ lab" by (simp add: cascade_prediction_def)
      with py_index_mem[OF Inr] False show ?thesis by blast
    qed
  qed
qed

lemma final_preds_labels:
  assumes "final_preds self X bp = Inr cascade"
  shows "\<exists>ps. bp = Array1 ps \<and> length cascade = length ps
     \<and> (\<forall>l \<in> set cascade. prefix ''Benign-'' l \<or> prefix ''Malicious-'' l)"
proof (cases bp)
  case (Array0 x)
  with assms show ?thesis by (simp add: final_preds_def)
next
  case (Array1 ps)
  define body where "body = (\<lambda>(i, pred). if i < length X then cascade_prediction self (X ! i) pred
                             else Inl IndexError)"
  from assms Array1 have m: "mapE body (zip [0..<length ps] ps) = Inr cascade"
    by (simp add: final_preds_def body_def)
  from mapE_Inr_length[OF m] have len: "length cascade = length ps" by simp
  have "prefix ''Benign-'' l \<or> prefix ''Malicious-'' l" if "l \<in> set cascade" for l
  proof -
    from mapE_Inr_mem2[OF m that] obtain ip where "body ip = Inr l" by blast
    then obtain x pred where "cascade_prediction self x pred = Inr l"
      by (cases ip) (auto simp: body_def split: if_splits)
    from cascade_prediction_label[OF this] show ?thesis by auto
  qed
  with len Array1 show ?thesis by blast
qed

lemma predict_cascaded_InrD:
  assumes "predict_cascaded self fd = Inr (Some v)"
  shows "\<exists>ue_ids bp s cascade.
           ue_id_values fd = Inr ue_ids
         \<and> per_ue_stage1 bp ue_ids = Inr s
         \<and> final_preds self (model_input self fd) bp = Inr cascade
         \<and> aggregate (zip ue_ids cascade) = Inr v"
proof -
  from assms have ne: "\<not> empty_table fd" by (auto simp: predict_cascaded_def split: if_splits)
  from assms ne obtain ue_ids where u: "ue_id_values fd = Inr ue_ids"
    by (cases "ue_id_values fd") (auto simp: predict_cascaded_def)
  from assms ne u obtain bp where b: "stage1 (s1_model self) (model_input self fd) = Inr bp"
    by (cases "stage1 (s1_model self) (model_input self fd)") (auto simp: predict_cascaded_def)
  from assms ne u b obtain s where s: "per_ue_stage1 bp ue_ids = Inr s"
    by (cases "per_ue_stage1 bp ue_ids") (auto simp: predict_cascaded_def)
  from assms ne u b s obtain cascade where c: "final_preds self (model_input self fd) bp = Inr cascade"
    by (cases "final_preds self (model_input self fd) bp") (auto simp: predict_cascaded_def)
  from assms ne u b s c have "aggregate (zip ue_ids cascade) = Inr v"
    by (cases "aggregate (zip ue_ids cascade)") (auto simp: predict_cascaded_def)
  with u s c show ?thesis by blast
qed

lemma ue_status_labelled:
  assumes "ps \<noteq> []" and "\<forall>l \<in> set ps. prefix ''Benign-'' l \<or> prefix ''Malicious-'' l"
  shows "\<exists>chosen. ue_status ps = Inr (''Benign-'' @ chosen) \<or> ue_status ps = Inr (''Malicious-'' @ chosen)"
proof (cases "filter (prefix ''Malicious-'') ps = []")
  case False
  from ue_status_malicious[OF False] show ?thesis by blast
next
  case True
  from assms(1) obtain p where p: "p \<in> set ps" by (cases ps) auto
  with True have "\<not> prefix ''Malicious-'' p" by (auto simp: filter_empty_conv)
  with assms(2) p have "prefix ''Benign-'' p" by blast
  with p have "filter (prefix ''Benign-'') ps \<noteq> []" by (auto simp: filter_empty_conv)
  from ue_status_benign[OF True this] show ?thesis by blast
qed

text \<open>
  What the dictionary \<^verbatim>\<open>per_ue_status\<close> holds when the predictor gets to it: every
  UE of the batch has a verdict, which starts with \<^verbatim>\<open>Benign-\<close> or
  \<^verbatim>\<open>Malicious-\<close>.
\<close>

lemma predict_cascaded_labels:
  assumes "predict_cascaded self feature_data = Inr (Some per_ue_status)"
    and "ue_id_values feature_data = Inr ue_ids"
    and "ue \<in> set ue_ids"
  shows "\<exists>label. map_of per_ue_status ue = Some label
           \<and> (prefix ''Benign-'' label \<or> prefix ''Malicious-'' label)
           \<and> label \<noteq> ''Unknown-NA''"
proof -
  from predict_cascaded_InrD[OF assms(1)] assms(2) obtain bp s cascade where
    s: "per_ue_stage1 bp ue_ids = Inr s"
    and c: "final_preds self (model_input self feature_data) bp = Inr cascade"
    and a: "aggregate (zip ue_ids cascade) = Inr per_ue_status"
    by auto
  from per_ue_stage1_length[OF s] final_preds_labels[OF c]
  have len: "length ue_ids \<le> length cascade"
    and lab: "\<forall>l \<in> set cascade. prefix ''Benign-'' l \<or> prefix ''Malicious-'' l"
    by auto
  let ?rows = "zip ue_ids cascade"
  from len have fst_rows: "map fst ?rows = ue_ids" by (simp add: map_fst_zip_take)
  let ?ps = "ue_preds_of ?rows ue"
  from assms(3) fst_rows have "ue \<in> fst ` set ?rows" by (metis set_map)
  then have ne: "?ps \<noteq> []" by (auto simp: ue_preds_of_def filter_empty_conv)
  have "set ?ps \<subseteq> set cascade" by (auto simp: ue_preds_of_def dest: set_zip_rightD)
  with lab have "\<forall>l \<in> set ?ps. prefix ''Benign-'' l \<or> prefix ''Malicious-'' l" by blast
  from ue_status_labelled[OF ne this] obtain chosen where
    st: "ue_status ?ps = Inr (''Benign-'' @ chosen) \<or> ue_status ?ps = Inr (''Malicious-'' @ chosen)"
    by blast
  from a have v: "per_ue_status = map (\<lambda>ue. (ue, projr (ue_status (ue_preds_of ?rows ue)))) (np_unique (map fst ?rows))"
    by (simp add: aggregate_eq)
  have "map_of per_ue_status ue = Some (projr (ue_status ?ps))"
    unfolding v by (rule map_of_tabulate) (simp add: set_np_unique fst_rows assms(3))
  with st show ?thesis by auto
qed

lemma most_common_key_replicate: "0 < n \<Longrightarrow> most_common_key (replicate n x) = Inr x"
proof -
  assume "0 < n"
  then have "replicate n x \<noteq> []" by simp
  from most_common_key_ok[OF this] obtain k where "most_common_key (replicate n x) = Inr k" "k \<in> set (replicate n x)"
    by blast
  then show ?thesis by simp
qed

lemma ue_status_all_malicious:
  assumes "0 < n"
  shows "ue_status (replicate n (''Malicious-'' @ lab)) = Inr (''Malicious-'' @ lab)"
proof -
  let ?ps = "replicate n (''Malicious-'' @ lab)"
  have f: "filter (prefix ''Malicious-'') ?ps = ?ps" by simp
  have m: "mapE subtype_of ?ps = Inr (map (drop 10) ?ps)"
    by (rule mapE_all) (simp add: subtype_of_Malicious)
  have "map (drop 10) ?ps = replicate n lab" by simp
  with m most_common_key_replicate[OF assms, of lab] assms show ?thesis
    unfolding ue_status_def Let_def f by simp
qed

lemma ue_status_all_benign:
  assumes "0 < n"
  shows "ue_status (replicate n (''Benign-'' @ lab)) = Inr (''Benign-'' @ lab)"
proof -
  let ?ps = "replicate n (''Benign-'' @ lab)"
  have f: "filter (prefix ''Malicious-'') ?ps = []" by simp
  have g: "filter (prefix ''Benign-'') ?ps = ?ps" by simp
  have m: "mapE subtype_of ?ps = Inr (map (drop 7) ?ps)"
    by (rule mapE_all) (simp add: subtype_of_Benign)
  have "map (drop 7) ?ps = replicate n lab" by simp
  with m most_common_key_replicate[OF assms, of lab] assms show ?thesis
    unfolding ue_status_def Let_def f g by simp
qed

lemma ue_preds_of_constant:
  "ue_preds_of (zip ue_ids (map (\<lambda>x. l) xs)) ue
     = replicate (length (filter (\<lambda>r. fst r = ue) (zip ue_ids (map (\<lambda>x. l) xs)))) l"
proof -
  have "\<forall>r \<in> set (filter (\<lambda>r. fst r = ue) (zip ue_ids (map (\<lambda>x. l) xs))). snd r = l"
    by (auto dest: set_zip_rightD)
  then show ?thesis
    unfolding ue_preds_of_def by (simp add: map_replicate_const[symmetric] cong: map_cong)
qed

lemma aggregate_constant_malicious:
  assumes "length xs = length ue_ids"
  shows "aggregate (zip ue_ids (map (\<lambda>x. ''Malicious-'' @ lab) xs))
           = Inr (map (\<lambda>ue. (ue, ''Malicious-'' @ lab)) (np_unique ue_ids))"
proof -
  let ?rows = "zip ue_ids (map (\<lambda>x. ''Malicious-'' @ lab) xs)"
  have fst_rows: "map fst ?rows = ue_ids" using assms by (simp add: map_fst_zip_take)
  have P: "projr (ue_status (ue_preds_of ?rows ue)) = ''Malicious-'' @ lab" if "ue \<in> set (np_unique ue_ids)" for ue
  proof -
    from that fst_rows have "ue \<in> fst ` set ?rows" by (metis set_map set_np_unique)
    then have "0 < length (filter (\<lambda>r. fst r = ue) ?rows)" by (auto simp: filter_empty_conv)
    from ue_status_all_malicious[OF this] show ?thesis by (simp add: ue_preds_of_constant)
  qed
  have "map (\<lambda>ue. (ue, projr (ue_status (ue_preds_of ?rows ue)))) (np_unique ue_ids)
      = map (\<lambda>ue. (ue, ''Malicious-'' @ lab)) (np_unique ue_ids)"
    by (rule map_cong[OF refl]) (simp only: P)
  then show ?thesis unfolding aggregate_eq fst_rows by (simp only:)
qed

lemma per_ue_stage1_total:
  assumes "length ue_ids \<le> length ps"
  shows "\<exists>s. per_ue_stage1 (Array1 ps) ue_ids = Inr s"
proof -
  define rd where "rd = (\<lambda>i. if i < length ps then Inr (ps ! i) else (Inl IndexError :: error + int))"
  define body where "body = (\<lambda>ue. case mapE rd (filter (\<lambda>i. ue_ids ! i = ue) [0..<length ue_ids]) of
                    Inl e \<Rightarrow> Inl e
                  | Inr ue_preds \<Rightarrow>
                      (case most_common_key ue_preds of
                         Inl e \<Rightarrow> Inl e
                       | Inr most_common \<Rightarrow>
                           Inr (ue, if most_common \<noteq> 0 then ''Malicious'' else ''Benign'')))"
  have "\<exists>y. body ue = Inr y" if "ue \<in> set (np_unique ue_ids)" for ue
  proof -
    let ?is = "filter (\<lambda>i. ue_ids ! i = ue) [0..<length ue_ids]"
    have "mapE rd ?is = Inr (map (\<lambda>i. ps ! i) ?is)"
      by (rule mapE_all) (use assms in \<open>auto simp: rd_def\<close>)
    moreover from that have "?is \<noteq> []"
      by (auto simp: set_np_unique filter_empty_conv in_set_conv_nth)
    then have "map (\<lambda>i. ps ! i) ?is \<noteq> []" by simp
    from most_common_key_ok[OF this] obtain k where "most_common_key (map (\<lambda>i. ps ! i) ?is) = Inr k"
      by blast
    ultimately show ?thesis by (simp add: body_def)
  qed
  from mapE_total[of "np_unique ue_ids" body, OF this] obtain s where "mapE body (np_unique ue_ids) = Inr s"
    by blast
  then show ?thesis by (auto simp: per_ue_stage1_def body_def rd_def)
qed

lemma final_preds_constant:
  assumes "length ps = length X"
    and "\<And>i. i < length X \<Longrightarrow> cascade_prediction self (X ! i) (ps ! i) = Inr l"
  shows "final_preds self X (Array1 ps) = Inr (map (\<lambda>x. l) (zip [0..<length ps] ps))"
  unfolding final_preds_def ndarray.case
proof (rule mapE_all)
  fix ip assume "ip \<in> set (zip [0..<length ps] ps)"
  then obtain i where "i < length ps" "ip = (i, ps ! i)"
    by (auto simp: set_zip)
  with assms show "(case ip of (i, pred) \<Rightarrow> if i < length X then cascade_prediction self (X ! i) pred else Inl IndexError) = Inr l"
    by simp
qed

lemma stage2_constant: "stage2 (Some (constant_estimator c)) x = Inr c"
  by (simp add: stage2_def constant_estimator_def first_def)

lemma stage1_constant: "stage1 (Some (constant_estimator c)) X = Inr (Array1 (map (\<lambda>x. c) X))"
  by (simp add: stage1_def constant_estimator_def)

lemma predict_cascaded_constant_malicious:
  assumes "s1_model self = Some (constant_estimator c1)" and "c1 \<noteq> 0"
    and "s2_mal_model self = Some (constant_estimator c2)"
    and "py_index (le_malicious self) c2 = Inr lab"
    and "\<not> empty_table t" and "ue_id_values t = Inr ue_ids"
  shows "predict_cascaded self t = Inr (Some (map (\<lambda>ue. (ue, ''Malicious-'' @ lab)) (np_unique ue_ids)))"
proof -
  let ?X = "model_input self t"
  let ?ps = "map (\<lambda>x. c1) ?X"
  have len: "length ?X = length ue_ids"
    using ue_id_values_length[OF assms(6)] by (simp add: length_model_input)
  have s1: "stage1 (s1_model self) ?X = Inr (Array1 ?ps)" by (simp add: assms(1) stage1_constant)
  from per_ue_stage1_total[of ue_ids ?ps] len obtain s where s: "per_ue_stage1 (Array1 ?ps) ue_ids = Inr s"
    by auto
  have cp: "cascade_prediction self (?X ! i) (?ps ! i) = Inr (''Malicious-'' @ lab)" if "i < length ?X" for i
    using that assms(2,3,4) by (simp add: cascade_prediction_def stage2_constant)
  have fp: "final_preds self ?X (Array1 ?ps) = Inr (map (\<lambda>x. ''Malicious-'' @ lab) (zip [0..<length ?ps] ?ps))"
    by (rule final_preds_constant) (use cp in simp_all)
  have ag: "aggregate (zip ue_ids (map (\<lambda>x. ''Malicious-'' @ lab) (zip [0..<length ?ps] ?ps)))
          = Inr (map (\<lambda>ue. (ue, ''Malicious-'' @ lab)) (np_unique ue_ids))"
    by (rule aggregate_constant_malicious) (simp add: len)
  show ?thesis
    unfolding predict_cascaded_def Let_def using assms(5,6) s1 s fp ag by simp
qed

lemma final_preds_total:
  assumes "length ps \<le> length X"
    and "\<And>i. i < length ps \<Longrightarrow> \<exists>l. cascade_prediction self (X ! i) (ps ! i) = Inr l"
  shows "\<exists>cascade. final_preds self X (Array1 ps) = Inr cascade"
  unfolding final_preds_def ndarray.case
proof (rule mapE_total)
  fix ip assume "ip \<in> set (zip [0..<length ps] ps)"
  then obtain i where i: "i < length ps" "ip = (i, ps ! i)"
    by (auto simp: set_zip)
  with assms(1) have "i < length X" by simp
  with assms(2)[OF i(1)] i(2)
  show "\<exists>y. (case ip of (i, p) \<Rightarrow> if i < length X then cascade_prediction self (X ! i) p else Inl IndexError) = Inr y"
    by simp
qed

text \<open>
  The predictor does get through a batch when stage 1 gives one class for each row and
  the label of every row can be built (the stage-2 model of the row's branch is loaded
  and its class index lies within the vocabulary).
\<close>

lemma predict_cascaded_total:
  assumes "\<not> empty_table t" and "ue_id_values t = Inr ue_ids"
    and "stage1 (s1_model self) (model_input self t) = Inr (Array1 ps)"
    and "length ps = length (trows t)"
    and "\<And>i. i < length ps \<Longrightarrow>
           \<exists>l. cascade_prediction self (model_input self t ! i) (ps ! i) = Inr l"
  shows "\<exists>per_ue_status. predict_cascaded self t = Inr (Some per_ue_status)"
proof -
  let ?X = "model_input self t"
  have len: "length ue_ids = length ps"
    using ue_id_values_length[OF assms(2)] assms(4) by simp
  from per_ue_stage1_total[of ue_ids ps] len obtain s where s: "per_ue_stage1 (Array1 ps) ue_ids = Inr s"
    by auto
  from final_preds_total[of ps ?X self] assms(4,5) obtain cascade where
    c: "final_preds self ?X (Array1 ps) = Inr cascade"
    by (auto simp: length_model_input)
  show ?thesis
    unfolding predict_cascaded_def Let_def
    using assms(1,2,3) s c by (simp add: aggregate_eq)
qed

lemma sample_table_not_empty [simp]: "\<not> empty_table (sample_table t ue x)"
  using rolled_columns_length by (auto simp: empty_table_def sample_table_def)

lemma ue_id_values_sample [simp]: "ue_id_values (sample_table t ue x) = Inr [ue]"
  by (simp add: ue_id_values_def sample_table_def UE_ID_in_rolled_columns map_of_rolled_row_UE_ID)

lemma predict_cascaded_sample:
  "predict_cascaded (loaded_xapp n) (sample_table t ue x) = Inr (Some [(ue, ''Malicious-udp_flood'')])"
  using predict_cascaded_constant_malicious[of "loaded_xapp n" 1 2 "''udp_flood''" "sample_table t ue x" "[ue]"]
  by (simp add: np_unique_def)

lemma predict_cascaded_no_model:
  assumes "s1_model self = None" and "\<not> empty_table t" and "ue_id_values t = Inr ue_ids"
  shows "predict_cascaded self t = Inl AttributeError"
  using assms by (simp add: predict_cascaded_def stage1_def)

lemma row_dict_no_measurement:
  assumes "metric_names self = default_metrics"
  shows "row_dict self t ''gnbd_001_001_00019b_0'' ue [] = sample_row t ue 0"
  using assms by (simp add: row_dict_def sample_row_def default_metrics_def extract_value_def)

text \<open>
  Claim C4.  When the first artifact is missing, \<^verbatim>\<open>__init__\<close> leaves
  \<^verbatim>\<open>s1_model\<close> at \<^verbatim>\<open>None\<close>.  \<^verbatim>\<open>predict_cascaded\<close> has no guard for that (the
  guard \<^verbatim>\<open>if self.model is None\<close> stands in the unused method \<^verbatim>\<open>predict\<close> only):
  on the features of one buffered record it raises an \<^verbatim>\<open>AttributeError\<close>, and the
  exception leaves \<^verbatim>\<open>subscription_callback\<close>.
\<close>

theorem predict_cascaded_raises_when_load_failed:
  "s1_model (init FileNotFoundError s2_ben s2_mal n) = None
   \<and> transform (unloaded_xapp 1) (DataFrame [sample_row 0 7 0]) = Inr (sample_table 0 7 0)
   \<and> predict_cascaded (unloaded_xapp 1) (sample_table 0 7 0) = Inl AttributeError
   \<and> fst (subscription_callback (unloaded_xapp 1) 0 ''gnbd_001_001_00019b_0'' [(7, [])])
       = Inl AttributeError"
proof -
  have t: "transform (unloaded_xapp 1) (DataFrame [sample_row 0 7 0]) = Inr (sample_table 0 7 0)"
    by (rule transform_sample) simp_all
  have p: "predict_cascaded (unloaded_xapp 1) (sample_table 0 7 0) = Inl AttributeError"
    by (rule predict_cascaded_no_model[where ue_ids = "[7]"]) simp_all
  have r: "row_dict (unloaded_xapp 1) 0 ''gnbd_001_001_00019b_0'' 7 [] = sample_row 0 7 0"
    by (rule row_dict_no_measurement) simp
  have p': "predict_cascaded ((unloaded_xapp 1)\<lparr>data_buffer := b\<rparr>) (sample_table 0 7 0) = Inl AttributeError" for b
    by (rule predict_cascaded_no_model[where ue_ids = "[7]"]) simp_all
  have "fst (subscription_callback (unloaded_xapp 1) 0 ''gnbd_001_001_00019b_0'' [(7, [])])
       = Inl AttributeError"
    by (simp add: subscription_callback_def Let_def r transform_sample p')
  with t p show ?thesis by (simp add: init_def)
qed

subsection \<open>The ingestion buffer\<close>

lemma add_keys_distinct:
  "distinct (acc @ ks) \<Longrightarrow> foldl (\<lambda>acc k. if k \<in> set acc then acc else acc @ [k]) acc ks = acc @ ks"
  by (induction ks arbitrary: acc) auto

lemma add_keys_known:
  "set ks \<subseteq> set acc \<Longrightarrow> foldl (\<lambda>acc k. if k \<in> set acc then acc else acc @ [k]) acc ks = acc"
  by (induction ks arbitrary: acc) auto

lemma keys_union_same:
  assumes "kss \<noteq> []" and "\<forall>ks \<in> set kss. ks = ks0" and "distinct ks0"
  shows "keys_union kss = ks0"
proof -
  have rest: "\<forall>ks \<in> set kss. ks = ks0 \<Longrightarrow>
      foldl (\<lambda>acc ks. foldl (\<lambda>acc k. if k \<in> set acc then acc else acc @ [k]) acc ks) ks0 kss = ks0" for kss
    by (induction kss) (auto simp: add_keys_known)
  from assms(1) obtain ks kss' where k: "kss = ks # kss'" by (cases kss) auto
  with assms(2) have "ks = ks0" "\<forall>ks \<in> set kss'. ks = ks0" by auto
  then show ?thesis
    using add_keys_distinct[of "[]" ks0] assms(3) rest[of kss'] by (simp add: keys_union_def k)
qed

lemma fcolumns_DataFrame_default:
  assumes "ds \<noteq> []" and "\<forall>d \<in> set ds. map fst (measurements d) = default_metrics"
  shows "fcolumns (DataFrame ds) = id_columns @ default_metrics"
proof -
  have "keys_union (map dict_keys ds) = id_columns @ default_metrics"
  proof (rule keys_union_same)
    show "map dict_keys ds \<noteq> []" using assms(1) by simp
    show "\<forall>ks \<in> set (map dict_keys ds). ks = id_columns @ default_metrics"
      using assms(2) by (auto simp: dict_keys_def)
    show "distinct (id_columns @ default_metrics)"
      by (simp add: id_columns_def default_metrics_def)
  qed
  then show ?thesis by (simp add: DataFrame_def Let_def)
qed

lemma frows_DataFrame_Nil [simp]: "frows (DataFrame ds) = [] \<longleftrightarrow> ds = []"
  by (simp add: DataFrame_def Let_def)

lemma transform_buffer:
  assumes "ds \<noteq> []" and "\<forall>d \<in> set ds. map fst (measurements d) = default_metrics"
    and "metric_names self = default_metrics" and "selected_features self = None"
  shows "transform self (DataFrame ds)
           = Inr \<lparr>tcolumns = rolled_columns, trows = final_rows (DataFrame ds)\<rparr>"
  using columns_ok assms(1,3,4)
  by (simp add: transform_result fcolumns_DataFrame_default[OF assms(1,2)] reindex_def)

lemma features_of_buffer:
  assumes "ds \<noteq> []"
  shows "\<not> empty_table \<lparr>tcolumns = rolled_columns, trows = final_rows (DataFrame ds)\<rparr>"
    and "\<exists>ue_ids. ue_id_values \<lparr>tcolumns = rolled_columns, trows = final_rows (DataFrame ds)\<rparr> = Inr ue_ids"
proof -
  show "\<not> empty_table \<lparr>tcolumns = rolled_columns, trows = final_rows (DataFrame ds)\<rparr>"
    using assms rolled_columns_length by (auto simp: empty_table_def)
  show "\<exists>ue_ids. ue_id_values \<lparr>tcolumns = rolled_columns, trows = final_rows (DataFrame ds)\<rparr> = Inr ue_ids"
    by (rule ue_id_values_total) (simp_all add: UE_ID_in_rolled_columns final_rows_UE_ID)
qed

lemma measurements_row_dict:
  assumes "metric_names self = default_metrics"
  shows "map fst (measurements (row_dict self t a ue m)) = default_metrics"
  using assms by (simp add: row_dict_def default_metrics_def)

lemma measurements_sample_row [simp]: "map fst (measurements (sample_row t ue x)) = default_metrics"
  by (simp add: sample_row_def comp_def)

text \<open>
  Claim C7.  The callback appends one record for each UE of the indication and drops
  none: while the buffer, after the append, is below the hard cap of 1440 records, the
  buffer after the call is the old buffer followed by the new records, whatever else the
  call does.  When the append brings the buffer to the hard cap or beyond, and the call
  runs its processing pass (the buffer has reached \<^verbatim>\<open>buffer_size\<close>) and the pass
  completes without an exception, the buffer after the call is empty.  The buffer after
  a call is never anything but one of the two.
\<close>

theorem subscription_callback_buffer:
  fixes self :: xapp
  defines "appended \<equiv> (\<lambda>timestamp e2_agent_id ueMeasData.
     data_buffer self
     @ map (\<lambda>(ue_id, meas_values). row_dict self timestamp e2_agent_id ue_id meas_values) ueMeasData)"
  shows "(length (appended t a m) < hard_cap \<longrightarrow>
            data_buffer (snd (subscription_callback self t a m)) = appended t a m)
       \<and> ((\<exists>verdicts. fst (subscription_callback self t a m) = Inr verdicts)
            \<and> buffer_size self \<le> int (length (appended t a m))
            \<and> hard_cap \<le> length (appended t a m) \<longrightarrow>
            data_buffer (snd (subscription_callback self t a m)) = [])
       \<and> (data_buffer (snd (subscription_callback self t a m)) = appended t a m
            \<or> data_buffer (snd (subscription_callback self t a m)) = [])"
  unfolding appended_def subscription_callback_def Let_def
  by (auto split: sum.splits)

lemma callback_completes:
  assumes mn: "metric_names self = default_metrics" and sf: "selected_features self = None"
    and s1: "s1_model self = Some (constant_estimator c1)" and c1: "c1 \<noteq> 0"
    and s2: "s2_mal_model self = Some (constant_estimator c2)"
    and lab: "py_index (le_malicious self) c2 = Inr lab"
    and buf: "\<forall>d \<in> set (data_buffer self). map fst (measurements d) = default_metrics"
    and m: "m \<noteq> []"
  shows "\<exists>verdicts. fst (subscription_callback self t a m) = Inr verdicts"
proof -
  define ds where "ds = data_buffer self
     @ map (\<lambda>(ue_id, meas_values). row_dict self t a ue_id meas_values) m"
  define self' where "self' = self\<lparr>data_buffer := ds\<rparr>"
  have ne: "ds \<noteq> []" using m by (simp add: ds_def)
  have keys: "\<forall>d \<in> set ds. map fst (measurements d) = default_metrics"
    using buf measurements_row_dict[OF mn] by (auto simp: ds_def)
  have tr: "transform self' (DataFrame ds)
           = Inr \<lparr>tcolumns = rolled_columns, trows = final_rows (DataFrame ds)\<rparr>"
    by (rule transform_buffer[OF ne keys]) (simp_all add: self'_def mn sf)
  from features_of_buffer[OF ne] obtain ue_ids where
    e: "\<not> empty_table \<lparr>tcolumns = rolled_columns, trows = final_rows (DataFrame ds)\<rparr>"
    and u: "ue_id_values \<lparr>tcolumns = rolled_columns, trows = final_rows (DataFrame ds)\<rparr> = Inr ue_ids"
    by blast
  have pc: "predict_cascaded self' \<lparr>tcolumns = rolled_columns, trows = final_rows (DataFrame ds)\<rparr>
      = Inr (Some (map (\<lambda>ue. (ue, ''Malicious-'' @ lab)) (np_unique ue_ids)))"
  proof (rule predict_cascaded_constant_malicious[OF _ c1 _ _ e u])
    show "s1_model self' = Some (constant_estimator c1)" using s1 by (simp add: self'_def)
    show "s2_mal_model self' = Some (constant_estimator c2)" using s2 by (simp add: self'_def)
    show "py_index (le_malicious self') c2 = Inr lab" using lab by (simp add: self'_def)
  qed
  have data: "data_buffer self' = ds" "buffer_size self' = buffer_size self"
    by (simp_all add: self'_def)
  show ?thesis
    unfolding subscription_callback_def Let_def ds_def[symmetric]
    unfolding self'_def[symmetric]
    by (simp add: data tr pc)
qed

theorem subscription_callback_buffer_witness:
  "length (data_buffer (loaded_xapp 30)
           @ map (\<lambda>(ue_id, meas_values). row_dict (loaded_xapp 30) 0 ''gnbd_001_001_00019b_0'' ue_id meas_values)
                 [(7, [])]) < hard_cap
   \<and> data_buffer (snd (subscription_callback (loaded_xapp 30) 0 ''gnbd_001_001_00019b_0'' [(7, [])]))
       = [sample_row 0 7 0]
   \<and> (\<exists>verdicts. fst (subscription_callback full_xapp 0 ''gnbd_001_001_00019b_0'' [(7, [])]) = Inr verdicts)
   \<and> buffer_size full_xapp \<le> int (length (data_buffer full_xapp
           @ map (\<lambda>(ue_id, meas_values). row_dict full_xapp 0 ''gnbd_001_001_00019b_0'' ue_id meas_values)
                 [(7, [])]))
   \<and> hard_cap \<le> length (data_buffer full_xapp
           @ map (\<lambda>(ue_id, meas_values). row_dict full_xapp 0 ''gnbd_001_001_00019b_0'' ue_id meas_values)
                 [(7, [])])
   \<and> data_buffer (snd (subscription_callback full_xapp 0 ''gnbd_001_001_00019b_0'' [(7, [])])) = []"
proof -
  have c: "\<exists>verdicts. fst (subscription_callback full_xapp 0 ''gnbd_001_001_00019b_0'' [(7, [])]) = Inr verdicts"
    by (rule callback_completes[where ?c1.0 = 1 and ?c2.0 = 2 and lab = "''udp_flood''"])
       (simp_all add: full_xapp_def loaded_xapp_def start_def init_def py_index_def)
  have r: "row_dict (loaded_xapp 30) 0 ''gnbd_001_001_00019b_0'' 7 [] = sample_row 0 7 0"
    by (rule row_dict_no_measurement) simp
  have 1: "length (data_buffer (loaded_xapp 30)
           @ map (\<lambda>(ue_id, meas_values). row_dict (loaded_xapp 30) 0 ''gnbd_001_001_00019b_0'' ue_id meas_values)
                 [(7, [])]) < hard_cap"
    by (simp add: hard_cap_def)
  have 2: "buffer_size full_xapp \<le> int (length (data_buffer full_xapp
           @ map (\<lambda>(ue_id, meas_values). row_dict full_xapp 0 ''gnbd_001_001_00019b_0'' ue_id meas_values)
                 [(7, [])]))"
    by (simp add: full_xapp_def)
  have 3: "hard_cap \<le> length (data_buffer full_xapp
           @ map (\<lambda>(ue_id, meas_values). row_dict full_xapp 0 ''gnbd_001_001_00019b_0'' ue_id meas_values)
                 [(7, [])])"
    by (simp add: full_xapp_def hard_cap_def)
  from subscription_callback_buffer[of "loaded_xapp 30" 0 "''gnbd_001_001_00019b_0''" "[(7, [])]"] 1
  have a: "data_buffer (snd (subscription_callback (loaded_xapp 30) 0 ''gnbd_001_001_00019b_0'' [(7, [])]))
       = [sample_row 0 7 0]"
    by (simp add: r)
  from subscription_callback_buffer[of full_xapp 0 "''gnbd_001_001_00019b_0''" "[(7, [])]"] c 2 3
  have b: "data_buffer (snd (subscription_callback full_xapp 0 ''gnbd_001_001_00019b_0'' [(7, [])])) = []"
    by blast
  from 1 a c 2 3 b show ?thesis by blast
qed

subsection \<open>The derived ratios\<close>

lemma f64_overflow_ge: "2 ^ 1023 \<le> f64_overflow"
proof -
  have "(2::real) ^ 1024 = 2 * 2 ^ 1023" by simp
  moreover have "(2::real) ^ 970 \<le> 2 ^ 1023" by (rule power_increasing) simp_all
  ultimately show ?thesis by (simp add: f64_overflow_def)
qed

lemma f64_overflow_le: "f64_overflow \<le> 2 * 2 ^ 1023"
proof -
  have "(2::real) ^ 1024 = 2 * 2 ^ 1023" by simp
  moreover have "(0::real) \<le> 2 ^ 970" by simp
  ultimately show ?thesis unfolding f64_overflow_def by linarith
qed

lemma f64_overflow_gt_1: "1 < f64_overflow"
proof -
  have "(1::real) < 2 ^ 1023" by (rule one_less_power) simp_all
  with f64_overflow_ge show ?thesis by linarith
qed

lemma mk_Fin: "- f64_overflow < x \<Longrightarrow> x < f64_overflow \<Longrightarrow> mk x = Fin x"
  by (simp add: mk_def)

lemma guarded_quotient:
  assumes a: "0 \<le> a" "a * 100000 < f64_overflow" and b: "0 \<le> b" "b * 100000 < f64_overflow"
  shows "fdiv (Fin a) (fadd (Fin b) epsilon) = Fin (a / (b + 1 / 100000))
       \<and> 0 \<le> a / (b + 1 / 100000)"
proof -
  have pos: "0 < b + 1 / 100000" using b(1) by simp
  have "b + 1 / 100000 < f64_overflow"
    using b f64_overflow_gt_1 by linarith
  with pos f64_overflow_gt_1 have d: "fadd (Fin b) epsilon = Fin (b + 1 / 100000)"
    by (simp add: epsilon_def mk_Fin)
  have le: "a / (b + 1 / 100000) \<le> a * 100000"
  proof -
    have "a / (b + 1 / 100000) \<le> a / (1 / 100000)"
      by (rule divide_left_mono) (use a(1) b(1) in simp_all)
    then show ?thesis by simp
  qed
  have nn: "0 \<le> a / (b + 1 / 100000)" using a(1) pos by simp
  from le a(2) have "a / (b + 1 / 100000) < f64_overflow" by linarith
  moreover from nn f64_overflow_gt_1 have "- f64_overflow < a / (b + 1 / 100000)" by linarith
  ultimately have "mk (a / (b + 1 / 100000)) = Fin (a / (b + 1 / 100000))" by (rule mk_Fin[rotated])
  with d pos nn show ?thesis by simp
qed

lemma f64_overflow_gt: "2 ^ 1023 < f64_overflow"
proof -
  have "(2::real) ^ 1024 = 2 * 2 ^ 1023" by simp
  moreover have "(2::real) ^ 970 < 2 ^ 1023" by (rule power_strict_increasing) simp_all
  ultimately show ?thesis by (simp add: f64_overflow_def)
qed

lemma f64_overflow_gt_100000: "100000 < f64_overflow"
proof -
  have "(100000::real) < 2 ^ 17" by simp
  also have "(2::real) ^ 17 \<le> 2 ^ 1023" by (rule power_increasing) simp_all
  finally show ?thesis using f64_overflow_ge by linarith
qed

text \<open>
  Claim C6, amended.  For a row whose raw metrics read by the ratios are non-negative and
  below the overflow bound over \<open>10^5\<close> (about \<open>1.797e303\<close>), every derived ratio and
  efficiency feature is a finite, non-negative number: each denominator is at least
  \<open>epsilon\<close>, so nothing is divided by zero, and the quotient is at most \<open>10^5\<close> times
  its numerator.  Without the bound a quotient can overflow, as the row after the
  theorem shows.
\<close>

theorem ratio_features_finite:
  assumes "\<forall>c \<in> set ratio_inputs. \<exists>x. col r c = Fin x \<and> 0 \<le> x \<and> x * 100000 < f64_overflow"
  shows "\<forall>c \<in> set ratio_features. \<exists>q. map_of (new_features r jdl jul) c = Some (Fin q) \<and> 0 \<le> q"
proof -
  have q: "\<exists>q. fdiv (col r n) (fadd (col r d) epsilon) = Fin q \<and> 0 \<le> q"
    if "n \<in> set ratio_inputs" "d \<in> set ratio_inputs" for n d
  proof -
    from assms that obtain a b where
      "col r n = Fin a" "0 \<le> a" "a * 100000 < f64_overflow"
      "col r d = Fin b" "0 \<le> b" "b * 100000 < f64_overflow"
      by blast
    with guarded_quotient[of a b] show ?thesis by auto
  qed
  have q1: "\<exists>q. fdiv (col r ''RRU.PrbUsedDl'') (fadd (col r ''RRU.PrbAvailDl'') epsilon) = Fin q \<and> 0 \<le> q"
    by (rule q) (simp_all add: ratio_inputs_def)
  have q2: "\<exists>q. fdiv (col r ''RRU.PrbUsedUl'') (fadd (col r ''RRU.PrbAvailUl'') epsilon) = Fin q \<and> 0 \<le> q"
    by (rule q) (simp_all add: ratio_inputs_def)
  have q3: "\<exists>q. fdiv (col r ''DRB.UEThpUl'') (fadd (col r ''RRU.PrbUsedUl'') epsilon) = Fin q \<and> 0 \<le> q"
    by (rule q) (simp_all add: ratio_inputs_def)
  have q4: "\<exists>q. fdiv (col r ''DRB.UEThpDl'') (fadd (col r ''RRU.PrbUsedDl'') epsilon) = Fin q \<and> 0 \<le> q"
    by (rule q) (simp_all add: ratio_inputs_def)
  have q5: "\<exists>q. fdiv (col r ''DRB.UEThpDl'') (fadd (col r ''DRB.UEThpUl'') epsilon) = Fin q \<and> 0 \<le> q"
    by (rule q) (simp_all add: ratio_inputs_def)
  have q6: "\<exists>q. fdiv (col r ''DRB.UEThpUl'') (fadd (col r ''DRB.RlcSduTransmittedVolumeUL'') epsilon) = Fin q \<and> 0 \<le> q"
    by (rule q) (simp_all add: ratio_inputs_def)
  have q7: "\<exists>q. fdiv (col r ''DRB.UEThpDl'') (fadd (col r ''DRB.RlcSduTransmittedVolumeDL'') epsilon) = Fin q \<and> 0 \<le> q"
    by (rule q) (simp_all add: ratio_inputs_def)
  show ?thesis
    using q1 q2 q3 q4 q5 q6 q7
    by (simp add: ratio_features_def new_features_def Let_def)
qed

lemma col_sample_row: "c \<in> set default_metrics \<Longrightarrow> col (sample_row t ue x) c = Fin x"
  by (auto simp: col_def sample_row_def map_of_map_restrict split: option.splits)

theorem ratio_features_finite_witness:
  "list_all (\<lambda>c. col (sample_row 0 7 1) c = Fin 1) ratio_inputs
   \<and> (0::real) \<le> 1 \<and> (1::real) * 100000 < f64_overflow
   \<and> map_of (new_features (sample_row 0 7 1) (Fin 0) (Fin 0)) ''UL_PRB_Efficiency''
       = Some (Fin (100000 / 100001))"
proof -
  have c: "list_all (\<lambda>c. col (sample_row 0 7 1) c = Fin 1) ratio_inputs"
    by (simp add: ratio_inputs_def col_sample_row default_metrics_def)
  then have h: "\<forall>c \<in> set ratio_inputs. \<exists>x. col (sample_row 0 7 1) c = Fin x \<and> 0 \<le> x \<and> x * 100000 < f64_overflow"
    using f64_overflow_gt_100000 by (auto simp: list_all_iff)
  from ratio_features_finite[OF h, of "Fin 0" "Fin 0"]
  obtain q where q: "map_of (new_features (sample_row 0 7 1) (Fin 0) (Fin 0)) ''UL_PRB_Efficiency'' = Some (Fin q)"
    by (auto simp: ratio_features_def)
  have "col (sample_row 0 7 1) ''DRB.UEThpUl'' = Fin 1" "col (sample_row 0 7 1) ''RRU.PrbUsedUl'' = Fin 1"
    by (simp_all add: col_sample_row default_metrics_def)
  with guarded_quotient[of 1 1] f64_overflow_gt_100000
  have "fdiv (col (sample_row 0 7 1) ''DRB.UEThpUl'') (fadd (col (sample_row 0 7 1) ''RRU.PrbUsedUl'') epsilon)
          = Fin (100000 / 100001)"
    by simp
  then have "map_of (new_features (sample_row 0 7 1) (Fin 0) (Fin 0)) ''UL_PRB_Efficiency''
       = Some (Fin (100000 / 100001))"
    by (simp add: new_features_def Let_def)
  with c q f64_overflow_gt_100000 show ?thesis by simp
qed

lemma col_steep_row:
  "col steep_row ''DRB.UEThpUl'' = Fin (2 ^ 1023)" "col steep_row ''RRU.PrbUsedUl'' = Fin 0"
  by (simp_all add: col_def steep_row_def default_metrics_def)

text \<open>
  The uplink throughput \<open>2^1023\<close> with no uplink resource block in use: all metrics are
  non-negative doubles, and \<^verbatim>\<open>UL_PRB_Efficiency\<close> is \<open>2^1023 / 1e-5\<close>, which
  overflows to \<open>+inf\<close>.
\<close>

theorem ratio_overflows_counterexample:
  "list_all (\<lambda>(c, v). v = Fin 0 \<or> v = Fin (2 ^ 1023)) (measurements steep_row)
   \<and> (0::real) \<le> 2 ^ 1023 \<and> (2::real) ^ 1023 < f64_overflow
   \<and> map_of (new_features steep_row (Fin 0) (Fin 0)) ''UL_PRB_Efficiency'' = Some PInf
   \<and> \<not> is_finite PInf"
proof -
  have m: "list_all (\<lambda>(c, v). v = Fin 0 \<or> v = Fin (2 ^ 1023)) (measurements steep_row)"
    by (simp add: steep_row_def default_metrics_def)
  have e: "fadd (Fin 0) epsilon = Fin (1 / 100000)"
    using f64_overflow_gt_1 by (simp add: epsilon_def mk_def)
  have "f64_overflow \<le> (2::real) ^ 1023 / (1 / 100000)"
    using f64_overflow_le by simp
  then have "fdiv (Fin (2 ^ 1023)) (Fin (1 / 100000)) = PInf"
    by (simp add: mk_def)
  with e have "map_of (new_features steep_row (Fin 0) (Fin 0)) ''UL_PRB_Efficiency'' = Some PInf"
    by (simp add: new_features_def Let_def col_steep_row)
  with m f64_overflow_gt show ?thesis by simp
qed

subsection \<open>The rolling statistics of a first sample\<close>








lemma fillna_not_NaN [simp]: "fillna v x \<noteq> NaN" "NaN \<noteq> fillna v x"
  by (cases x; simp)+







subsection \<open>The two stages on one row\<close>








lemma threshold_batch:
  assumes "length out \<noteq> 1"
  shows "threshold sg out = Array1 (map (\<lambda>s. if 1 / 2 < sg s then 1 else 0) out)"
proof (cases out)
  case Nil
  then show ?thesis by (simp add: threshold_def)
next
  case (Cons a rest)
  with assms obtain b rest' where "rest = b # rest'" by (cases rest) auto
  with Cons show ?thesis by (simp add: threshold_def)
qed

lemma argmax_from_spec:
  assumes "bi < length ys" and "best = ys ! bi"
    and "\<forall>j < length ys. ys ! j \<le> best" and "\<forall>j < bi. ys ! j < best"
  shows "argmax_from best bi (length ys) xs < length (ys @ xs)
       \<and> (\<forall>j < length (ys @ xs). (ys @ xs) ! j \<le> (ys @ xs) ! argmax_from best bi (length ys) xs)
       \<and> (\<forall>j < argmax_from best bi (length ys) xs.
             (ys @ xs) ! j < (ys @ xs) ! argmax_from best bi (length ys) xs)"
  using assms
proof (induction xs arbitrary: ys best bi)
  case Nil
  then show ?case by simp
next
  case (Cons x xs)
  show ?case
  proof (cases "best < x")
    case True
    have "argmax_from x (length ys) (length (ys @ [x])) xs < length ((ys @ [x]) @ xs)
       \<and> (\<forall>j < length ((ys @ [x]) @ xs). ((ys @ [x]) @ xs) ! j \<le> ((ys @ [x]) @ xs) ! argmax_from x (length ys) (length (ys @ [x])) xs)
       \<and> (\<forall>j < argmax_from x (length ys) (length (ys @ [x])) xs.
             ((ys @ [x]) @ xs) ! j < ((ys @ [x]) @ xs) ! argmax_from x (length ys) (length (ys @ [x])) xs)"
    proof (rule Cons.IH)
      show "length ys < length (ys @ [x])" by simp
      show "x = (ys @ [x]) ! length ys" by simp
      show "\<forall>j<length (ys @ [x]). (ys @ [x]) ! j \<le> x"
        using Cons.prems(3) True by (auto simp: nth_append less_Suc_eq)
      show "\<forall>j<length ys. (ys @ [x]) ! j < x"
        using Cons.prems(3) True by (auto simp: nth_append intro: le_less_trans)
    qed
    with True show ?thesis by simp
  next
    case False
    have "argmax_from best bi (length (ys @ [x])) xs < length ((ys @ [x]) @ xs)
       \<and> (\<forall>j < length ((ys @ [x]) @ xs). ((ys @ [x]) @ xs) ! j \<le> ((ys @ [x]) @ xs) ! argmax_from best bi (length (ys @ [x])) xs)
       \<and> (\<forall>j < argmax_from best bi (length (ys @ [x])) xs.
             ((ys @ [x]) @ xs) ! j < ((ys @ [x]) @ xs) ! argmax_from best bi (length (ys @ [x])) xs)"
    proof (rule Cons.IH)
      show "bi < length (ys @ [x])" using Cons.prems(1) by simp
      show "best = (ys @ [x]) ! bi" using Cons.prems(1,2) by (simp add: nth_append)
      show "\<forall>j<length (ys @ [x]). (ys @ [x]) ! j \<le> best"
        using Cons.prems(3) False by (auto simp: nth_append less_Suc_eq)
      show "\<forall>j<bi. (ys @ [x]) ! j < best"
        using Cons.prems(1,4) by (auto simp: nth_append)
    qed
    with False show ?thesis by simp
  qed
qed

lemma argmax_spec:
  assumes "xs \<noteq> []"
  shows "\<exists>k. argmax xs = Inr (int k) \<and> k < length xs
           \<and> (\<forall>j < length xs. xs ! j \<le> xs ! k) \<and> (\<forall>j < k. xs ! j < xs ! k)"
proof -
  from assms obtain x rest where xs: "xs = x # rest" by (cases xs) auto
  from argmax_from_spec[of 0 "[x]" x rest]
  have "argmax_from x 0 1 rest < length xs
       \<and> (\<forall>j < length xs. xs ! j \<le> xs ! argmax_from x 0 1 rest)
       \<and> (\<forall>j < argmax_from x 0 1 rest. xs ! j < xs ! argmax_from x 0 1 rest)"
    by (simp add: xs)
  then show ?thesis by (simp add: argmax_def xs)
qed

lemma stage1_scalars:
  assumes "net X = Tensor1 out" and "length out \<noteq> 1"
  shows "stage1 (Some (Module net sg)) X = Inr (Array1 (map (\<lambda>s. if 1 / 2 < sg s then 1 else 0) out))"
  using assms(1) by (simp add: stage1_def threshold_batch[OF assms(2)])

lemma concat_singletons: "\<forall>r \<in> set out. length r = 1 \<Longrightarrow> concat out = map hd out"
proof (induction out)
  case Nil
  then show ?case by simp
next
  case (Cons r out)
  then obtain x where "r = [x]" by (cases r) auto
  with Cons show ?case by simp
qed

lemma stage1_one_column:
  assumes "net X = Tensor2 out" and "length out \<noteq> 1" and "\<forall>r \<in> set out. length r = 1"
  shows "stage1 (Some (Module net sg)) X
           = Inr (Array1 (map (\<lambda>r. if 1 / 2 < sg (hd r) then 1 else 0) out))"
proof (cases out)
  case Nil
  with assms(1) show ?thesis by (simp add: stage1_def shape1_def)
next
  case (Cons r rest)
  with assms(3) have s: "shape1 out = 1" by (simp add: shape1_def)
  have "length (concat out) \<noteq> 1" using assms(2,3) by (simp add: concat_singletons)
  from threshold_batch[OF this, of sg] assms(1) s show ?thesis
    by (simp add: stage1_def concat_singletons[OF assms(3)] comp_def)
qed




lemma loaded_vocabularies:
  "le_benign (loaded_xapp n) = [''embb'', ''mtc'', ''urllc'', ''voip'']"
  "le_malicious (loaded_xapp n) = [''parallel_tcp_flood'', ''udp_fragmentation_flood'', ''udp_flood'',
                              ''small_packet_flood'', ''pulsing_udp_flood'', ''parallel_udp_flood'',
                              ''parallel_tcp_flood'']"
  by (simp_all add: loaded_xapp_def start_def init_def)


subsection \<open>Two edges of the pipeline\<close>

text \<open>
  The callback does pass the frame without columns: with \<^verbatim>\<open>buffer_size\<close> 0 and an
  indication that carries no UE, the empty buffer is processed and the exception of the
  feature engineering leaves the callback.
\<close>

lemma callback_on_empty_buffer_raises:
  "fst (subscription_callback (loaded_xapp 0) t a []) = Inl KeyError"
proof -
  have "transform self (DataFrame []) = Inl KeyError" for self
    by (simp add: transform_result DataFrame_def keys_union_def)
  then show ?thesis by (simp add: subscription_callback_def Let_def)
qed

text \<open>
  A batch of one row and a stage-1 module that emits one scalar for each row:
  \<^verbatim>\<open>squeeze()\<close> leaves an array of dimension 0, and reading \<^verbatim>\<open>binary_preds[i]\<close>
  raises.
\<close>

lemma one_row_scalar_module_raises:
  assumes "s1_model self = Some (Module (\<lambda>X. Tensor1 (map (\<lambda>x. s) X)) torch_sigmoid)"
  shows "predict_cascaded self (sample_table t ue x) = Inl IndexError"
proof -
  have "length (model_input self (sample_table t ue x)) = 1"
    by (simp add: length_model_input) (simp add: sample_table_def)
  then obtain v where "model_input self (sample_table t ue x) = [v]"
    by (cases "model_input self (sample_table t ue x)") auto
  then show ?thesis
    using assms by (simp add: predict_cascaded_def stage1_def threshold_def per_ue_stage1_def)
qed

subsection \<open>Every entity of a batch gets a verdict\<close>

lemma ue_id_column_values:
  assumes "ue_id_column t"
  shows "\<exists>ue_ids. ue_id_values t = Inr ue_ids"
proof (rule ue_id_values_total)
  show "''UE_ID'' \<in> set (tcolumns t)" using assms by (simp add: ue_id_column_def)
next
  fix r assume "r \<in> set (trows t)"
  with assms have "case map_of r ''UE_ID'' of Some (I n) \<Rightarrow> True | _ \<Rightarrow> False"
    by (simp add: ue_id_column_def list_all_iff)
  then show "\<exists>n. map_of r ''UE_ID'' = Some (I n)"
    by (auto split: option.splits cell.splits)
qed

lemma has_ue_values:
  assumes "ue_id_values t = Inr ue_ids" and "has_ue t ue"
  shows "ue \<in> set ue_ids"
proof -
  define f where "f = (\<lambda>r. case map_of r ''UE_ID'' of Some (I n) \<Rightarrow> Inr n | _ \<Rightarrow> (Inl TypeError :: error + int))"
  from assms(1) have m: "mapE f (trows t) = Inr ue_ids"
    by (simp add: ue_id_values_def f_def split: if_splits)
  from assms(2) obtain r where r: "r \<in> set (trows t)" "map_of r ''UE_ID'' = Some (I ue)"
    by (auto simp: has_ue_def list_ex_iff)
  from mapE_Inr_mem[OF m r(1)] obtain y where "y \<in> set ue_ids" "f r = Inr y" by blast
  with r(2) show ?thesis by (simp add: f_def)
qed

lemma stage1_answers_classes:
  assumes "stage1_answers m X"
  shows "\<exists>ps. stage1 (Some m) X = Inr (Array1 ps) \<and> length ps = length X"
proof (cases m)
  case (Estimator clf)
  with assms show ?thesis by (simp add: stage1_answers_def stage1_def)
next
  case (Module net sg)
  show ?thesis
  proof (cases "net X")
    case (Tensor1 out)
    with assms Module have l: "length out = length X" "length out \<noteq> 1"
      by (simp_all add: stage1_answers_def)
    from stage1_scalars[where net = net and X = X and out = out and sg = sg, OF Tensor1 l(2)] l(1) Module
    show ?thesis by simp
  next
    case (Tensor2 out)
    with assms Module have l: "length out = length X" "shape1 out \<noteq> 0"
      "\<forall>r \<in> set out. length r = shape1 out" "shape1 out \<noteq> 1 \<or> length out \<noteq> 1"
      by (auto simp: stage1_answers_def list_all_iff)
    show ?thesis
    proof (cases "shape1 out = 1")
      case True
      with l(3,4) have "length out \<noteq> 1" "\<forall>r \<in> set out. length r = 1" by simp_all
      from stage1_one_column[where net = net and X = X and out = out and sg = sg, OF Tensor2 this] l(1) Module
      show ?thesis by simp
    next
      case False
      have "\<exists>ps. mapE argmax out = Inr ps"
      proof (rule mapE_total)
        fix r assume "r \<in> set out"
        with l(2,3) have "r \<noteq> []" by auto
        from argmax_spec[OF this] show "\<exists>y. argmax r = Inr y" by blast
      qed
      then obtain ps where ps: "mapE argmax out = Inr ps" ..
      from mapE_Inr_length[OF ps] l(1) have "length ps = length X" by simp
      with ps False Tensor2 Module show ?thesis by (simp add: stage1_def)
    qed
  qed
qed

lemma stage2_answers_index:
  assumes "stage2_answers m n x"
  shows "\<exists>enc. stage2 (Some m) x = Inr enc \<and> - int n \<le> enc \<and> enc < int n"
proof (cases m)
  case (Estimator clf)
  with assms show ?thesis
    by (cases "clf [x]") (simp_all add: stage2_answers_def stage2_def first_def)
next
  case (Module net sg)
  show ?thesis
  proof (cases "net [x]")
    case (Tensor1 out)
    with assms Module show ?thesis by (simp add: stage2_answers_def)
  next
    case (Tensor2 out)
    with assms Module obtain r rest where out: "out = r # rest"
      and rs: "\<forall>r \<in> set out. r \<noteq> [] \<and> length r \<le> n"
      by (cases out) (auto simp: stage2_answers_def list_all_iff)
    have "\<exists>ps. mapE argmax out = Inr ps"
    proof (rule mapE_total)
      fix r assume "r \<in> set out"
      with rs have "r \<noteq> []" by auto
      from argmax_spec[OF this] show "\<exists>y. argmax r = Inr y" by blast
    qed
    then obtain ps where ps: "mapE argmax out = Inr ps" ..
    from rs out have r: "r \<noteq> []" "length r \<le> n" by simp_all
    from argmax_spec[OF r(1)] obtain k where k: "argmax r = Inr (int k)" "k < length r" by blast
    from ps out k(1) obtain ps' where "ps = int k # ps'"
      by (auto split: sum.splits)
    with ps Tensor2 Module have "stage2 (Some m) x = Inr (int k)"
      by (simp add: stage2_def first_def)
    with k(2) r(2) show ?thesis by simp
  qed
qed

lemma py_index_total:
  assumes "- int (length xs) \<le> i" and "i < int (length xs)"
  shows "\<exists>y. py_index xs i = Inr y"
  using assms by (simp add: py_index_def)

lemma cascade_prediction_total:
  assumes "s2_ben_model self = Some s2_ben"
    and "stage2_answers s2_ben (length (le_benign self)) x"
    and "s2_mal_model self = Some s2_mal"
    and "stage2_answers s2_mal (length (le_malicious self)) x"
  shows "\<exists>l. cascade_prediction self x p = Inr l"
proof (cases "p = 0")
  case True
  from stage2_answers_index[OF assms(2)] obtain enc where
    e: "stage2 (Some s2_ben) x = Inr enc" "- int (length (le_benign self)) \<le> enc"
       "enc < int (length (le_benign self))"
    by blast
  from py_index_total[OF e(2,3)] obtain y where "py_index (le_benign self) enc = Inr y" ..
  with True e(1) assms(1) show ?thesis by (simp add: cascade_prediction_def)
next
  case False
  from stage2_answers_index[OF assms(4)] obtain enc where
    e: "stage2 (Some s2_mal) x = Inr enc" "- int (length (le_malicious self)) \<le> enc"
       "enc < int (length (le_malicious self))"
    by blast
  from py_index_total[OF e(2,3)] obtain y where "py_index (le_malicious self) enc = Inr y" ..
  with False e(1) assms(3) show ?thesis by (simp add: cascade_prediction_def)
qed

text \<open>
  Claim C10, amended.  For every batch that is not empty and holds an integer in the
  column \<^verbatim>\<open>UE_ID\<close> of every row: when the stage-1 model is loaded and gives one
  class for each row of the batch, and both stage-2 models are loaded and give for every
  row a class index within their vocabulary, the cascaded predictor gets to the
  dictionary \<^verbatim>\<open>per_ue_status\<close>, and every entity that has a row in the batch has a
  verdict in it that starts with \<^verbatim>\<open>Benign-\<close> or \<^verbatim>\<open>Malicious-\<close> and is not
  \<^verbatim>\<open>Unknown-NA\<close>.
\<close>

theorem predict_cascaded_assigns_verdicts:
  assumes "\<not> empty_table feature_data" and "ue_id_column feature_data"
    and "s1_model self = Some s1"
    and "stage1_answers s1 (model_input self feature_data)"
    and "s2_ben_model self = Some s2_ben"
    and "list_all (stage2_answers s2_ben (length (le_benign self))) (model_input self feature_data)"
    and "s2_mal_model self = Some s2_mal"
    and "list_all (stage2_answers s2_mal (length (le_malicious self))) (model_input self feature_data)"
  shows "\<exists>per_ue_status.
           predict_cascaded self feature_data = Inr (Some per_ue_status)
         \<and> (\<forall>ue. has_ue feature_data ue \<longrightarrow>
               (\<exists>label. map_of per_ue_status ue = Some label
                  \<and> (prefix ''Benign-'' label \<or> prefix ''Malicious-'' label)
                  \<and> label \<noteq> ''Unknown-NA''))"
proof -
  let ?X = "model_input self feature_data"
  from ue_id_column_values[OF assms(2)] obtain ue_ids where u: "ue_id_values feature_data = Inr ue_ids" ..
  from stage1_answers_classes[OF assms(4)] assms(3) obtain ps where
    ps: "stage1 (s1_model self) ?X = Inr (Array1 ps)" and len: "length ps = length ?X"
    by auto
  have len': "length ps = length (trows feature_data)" using len by (simp add: length_model_input)
  have cp: "\<exists>l. cascade_prediction self (?X ! i) (ps ! i) = Inr l" if "i < length ps" for i
  proof (rule cascade_prediction_total[OF assms(5) _ assms(7)])
    from that len have "?X ! i \<in> set ?X" by simp
    with assms(6,8) show "stage2_answers s2_ben (length (le_benign self)) (?X ! i)"
      and "stage2_answers s2_mal (length (le_malicious self)) (?X ! i)"
      by (simp_all add: list_all_iff)
  qed
  from predict_cascaded_total[OF assms(1) u ps len' cp] obtain per_ue_status where
    p: "predict_cascaded self feature_data = Inr (Some per_ue_status)"
    by blast
  have "\<exists>label. map_of per_ue_status ue = Some label
                  \<and> (prefix ''Benign-'' label \<or> prefix ''Malicious-'' label)
                  \<and> label \<noteq> ''Unknown-NA''" if "has_ue feature_data ue" for ue
    by (rule predict_cascaded_labels[OF p u has_ue_values[OF u that]])
  with p show ?thesis by blast
qed

lemma stage1_answers_constant: "stage1_answers (constant_estimator c) X"
  by (simp add: stage1_answers_def constant_estimator_def)

lemma stage2_answers_constant:
  "stage2_answers (constant_estimator c) n x \<longleftrightarrow> - int n \<le> c \<and> c < int n"
  by (simp add: stage2_answers_def constant_estimator_def)

lemma ue_id_column_sample: "ue_id_column (sample_table t ue x)"
  by (simp add: ue_id_column_def sample_table_def UE_ID_in_rolled_columns map_of_rolled_row_UE_ID)

lemma has_ue_sample: "has_ue (sample_table t ue x) ue"
  by (simp add: has_ue_def sample_table_def map_of_rolled_row_UE_ID)

theorem predict_cascaded_assigns_verdicts_witness:
  "\<not> empty_table (sample_table 0 7 1)
   \<and> ue_id_column (sample_table 0 7 1)
   \<and> s1_model (loaded_xapp 1) = Some (constant_estimator 1)
   \<and> stage1_answers (constant_estimator 1) (model_input (loaded_xapp 1) (sample_table 0 7 1))
   \<and> s2_ben_model (loaded_xapp 1) = Some (constant_estimator 0)
   \<and> list_all (stage2_answers (constant_estimator 0) (length (le_benign (loaded_xapp 1))))
        (model_input (loaded_xapp 1) (sample_table 0 7 1))
   \<and> s2_mal_model (loaded_xapp 1) = Some (constant_estimator 2)
   \<and> list_all (stage2_answers (constant_estimator 2) (length (le_malicious (loaded_xapp 1))))
        (model_input (loaded_xapp 1) (sample_table 0 7 1))
   \<and> has_ue (sample_table 0 7 1) 7
   \<and> predict_cascaded (loaded_xapp 1) (sample_table 0 7 1) = Inr (Some [(7, ''Malicious-udp_flood'')])
   \<and> (\<exists>label. map_of [(7::int, ''Malicious-udp_flood'')] 7 = Some label
         \<and> (prefix ''Benign-'' label \<or> prefix ''Malicious-'' label)
         \<and> label \<noteq> ''Unknown-NA'')"
proof -
  have h1: "\<not> empty_table (sample_table 0 7 1)" by simp
  have h2: "ue_id_column (sample_table 0 7 1)" by (rule ue_id_column_sample)
  have h3: "s1_model (loaded_xapp 1) = Some (constant_estimator 1)"
    by (simp add: loaded_xapp_def start_def init_def)
  have h4: "stage1_answers (constant_estimator 1) (model_input (loaded_xapp 1) (sample_table 0 7 1))"
    by (rule stage1_answers_constant)
  have h5: "s2_ben_model (loaded_xapp 1) = Some (constant_estimator 0)"
    by (simp add: loaded_xapp_def start_def init_def)
  have h6: "list_all (stage2_answers (constant_estimator 0) (length (le_benign (loaded_xapp 1))))
        (model_input (loaded_xapp 1) (sample_table 0 7 1))"
    by (simp add: list_all_iff stage2_answers_constant loaded_vocabularies)
  have h7: "s2_mal_model (loaded_xapp 1) = Some (constant_estimator 2)"
    by (simp add: loaded_xapp_def start_def init_def)
  have h8: "list_all (stage2_answers (constant_estimator 2) (length (le_malicious (loaded_xapp 1))))
        (model_input (loaded_xapp 1) (sample_table 0 7 1))"
    by (simp add: list_all_iff stage2_answers_constant loaded_vocabularies)
  have h9: "has_ue (sample_table 0 7 1) 7" by (rule has_ue_sample)
  have v: "predict_cascaded (loaded_xapp 1) (sample_table 0 7 1) = Inr (Some [(7, ''Malicious-udp_flood'')])"
    by (rule predict_cascaded_sample)
  from predict_cascaded_assigns_verdicts[OF h1 h2 h3 h4 h5 h6 h7 h8] v h9
  have "\<exists>label. map_of [(7::int, ''Malicious-udp_flood'')] 7 = Some label
         \<and> (prefix ''Benign-'' label \<or> prefix ''Malicious-'' label)
         \<and> label \<noteq> ''Unknown-NA''"
    by auto
  with h1 h2 h3 h4 h5 h6 h7 h8 h9 v show ?thesis by blast
qed

text \<open>
  A batch of one row of UE 7, and loaded models of which the stage-2 model of the
  malicious branch answers class 7: the vocabulary has the entries 0 to 6, line 267
  raises an \<^verbatim>\<open>IndexError\<close>, and UE 7 gets no verdict.
\<close>

theorem predict_cascaded_index_counterexample:
  "\<not> empty_table (sample_table 0 7 1)
   \<and> has_ue (sample_table 0 7 1) 7
   \<and> predict_cascaded (misfit_xapp 1) (sample_table 0 7 1) = Inl IndexError"
proof -
  let ?self = "misfit_xapp 1"
  let ?t = "sample_table 0 7 1"
  have f: "s1_model ?self = Some (constant_estimator 1)"
    "s2_mal_model ?self = Some (constant_estimator 7)"
    "length (le_malicious ?self) = 7"
    by (simp_all add: misfit_xapp_def start_def init_def)
  have "length (model_input ?self ?t) = 1"
    by (simp add: length_model_input) (simp add: sample_table_def)
  then obtain v where X: "model_input ?self ?t = [v]"
    by (cases "model_input ?self ?t") auto
  have s1: "stage1 (s1_model ?self) [v] = Inr (Array1 [1])" by (simp add: f stage1_constant)
  from per_ue_stage1_total[of "[7]" "[1]"] obtain s where s: "per_ue_stage1 (Array1 [1]) [7] = Inr s"
    by auto
  have c: "final_preds ?self [v] (Array1 [1]) = Inl IndexError"
    by (simp add: final_preds_def cascade_prediction_def f stage2_constant py_index_def)
  have "predict_cascaded ?self ?t = Inl IndexError"
    by (simp add: predict_cascaded_def X s1 s c)
  then show ?thesis by (simp add: has_ue_sample)
qed

end
